theory Spec2Isabelle
  imports Main "HOL-Library.Word" "HOL-Library.List_Lexorder"
begin

section \<open>Text and bytes\<close>

text \<open>
  A Python \<open>str\<close> is a sequence of Unicode code points and is modelled as a list of
  natural numbers; comparison of two such lists is lexicographic by code point, which
  is how Python orders strings. A \<open>bytes\<close> object is a list of 8-bit words.
  \<open>u\<close> turns an ASCII literal into a \<open>str\<close>.
\<close>

type_synonym ustr = "nat list"
type_synonym byte = "8 word"

definition u :: "string \<Rightarrow> ustr" where
  "u s = map of_char s"

definition NL :: ustr where
  "NL = [10]"

definition sep :: nat where
  "sep = 47"

text \<open>\<open>s.join(xs)\<close>\<close>

fun join :: "ustr \<Rightarrow> ustr list \<Rightarrow> ustr" where
  "join s [] = []"
| "join s [x] = x"
| "join s (x # y # ys) = x @ s @ join s (y # ys)"

text \<open>\<open>c * n\<close> for a one-character string \<open>c\<close>\<close>

definition rep :: "nat \<Rightarrow> ustr \<Rightarrow> ustr" where
  "rep n s = concat (replicate n s)"

text \<open>\<open>s.startswith(p)\<close> and \<open>s.endswith(p)\<close>\<close>

definition startswith :: "ustr \<Rightarrow> ustr \<Rightarrow> bool" where
  "startswith s p = (take (length p) s = p)"

definition endswith :: "ustr \<Rightarrow> ustr \<Rightarrow> bool" where
  "endswith s p = (length p \<le> length s \<and> drop (length s - length p) s = p)"

text \<open>Decimal digits of a natural number, and \<open>str(i)\<close> for a Python int.\<close>

fun digits :: "nat \<Rightarrow> ustr" where
  "digits n = (if n < 10 then [48 + n] else digits (n div 10) @ [48 + n mod 10])"

declare digits.simps [simp del]

definition str_int :: "int \<Rightarrow> ustr" where
  "str_int i = (if i < 0 then 45 # digits (nat (- i)) else digits (nat i))"

text \<open>
  \<open>f"{file_size / 1024:.1f}"\<close>. The division of two Python ints gives the double nearest
  to the quotient. Dividing by 1024 only changes the exponent, so that double is the size
  rounded to 53 significant bits (ties to even) over 1024: the size itself below
  \<open>2 ^ 53\<close>. The format then rounds this double to one decimal, again ties to even.
  \<open>round53\<close> is the first rounding, \<open>tenths_kb\<close> the second, counted in tenths of a KB.
  A size is an \<open>st_size\<close>, below \<open>2 ^ 63\<close>, far from the overflow of a double.
\<close>

fun bit_length :: "nat \<Rightarrow> nat" where
  "bit_length n = (if n = 0 then 0 else Suc (bit_length (n div 2)))"

declare bit_length.simps [simp del]

definition round53 :: "nat \<Rightarrow> nat" where
  "round53 n =
     (if n < 2 ^ 53 then n
      else
        let sh = bit_length n - 53; q = n div 2 ^ sh; r = n mod 2 ^ sh
        in (if r > 2 ^ (sh - 1) \<or> (r = 2 ^ (sh - 1) \<and> odd q) then q + 1 else q) * 2 ^ sh)"

definition tenths_kb :: "nat \<Rightarrow> nat" where
  "tenths_kb n =
     (let m = round53 n; q = (10 * m) div 1024; r = (10 * m) mod 1024
      in if r > 512 \<or> (r = 512 \<and> odd q) then q + 1 else q)"

definition fmt_kb :: "nat \<Rightarrow> ustr" where
  "fmt_kb n = digits (tenths_kb n div 10) @ u ''.'' @ digits (tenths_kb n mod 10)"

section \<open>The extracted file tree\<close>

text \<open>
  What the code can observe of one regular file: its bytes, and at most one I/O failure,
  placed at the first operation that raises (every handler of the source ends the work
  on the file, so no later operation is attempted).
\<close>

datatype io_fault =
    SizeFails ustr        \<comment> \<open>\<open>os.path.getsize\<close> raises \<open>OSError\<close> with this message\<close>
  | ProbeFails ustr       \<comment> \<open>opening or reading in mode \<open>'rb'\<close> raises \<open>IOError\<close>/\<open>OSError\<close>\<close>
  | ProbeFailsOther ustr  \<comment> \<open>the same, with another exception\<close>
  | ReadFails ustr        \<comment> \<open>opening or reading in text mode raises \<open>IOError\<close>/\<open>OSError\<close>\<close>
  | ReadFailsOther ustr   \<comment> \<open>the same, with another exception\<close>

record fdata =
  file_bytes :: "byte list"
  fault :: "io_fault option"

text \<open>
  A directory lists its entries in the order the file system returns them
  (\<open>os.scandir\<close>), which is not sorted. \<open>zipfile\<close> extracts regular files and
  directories only, so there are no links.
\<close>

datatype node = File ustr fdata | Dir ustr "node list"

fun node_name :: "node \<Rightarrow> ustr" where
  "node_name (File n d) = n"
| "node_name (Dir n es) = n"

fun is_dir :: "node \<Rightarrow> bool" where
  "is_dir (File n d) = False"
| "is_dir (Dir n es) = True"

text \<open>
  A path below the repository root is the list of its components; the root itself is
  \<open>[]\<close>. \<open>relpath\<close> is \<open>os.path.relpath(p, repo_root_in_temp)\<close>.
\<close>

type_synonym path = "ustr list"

definition relpath :: "path \<Rightarrow> ustr" where
  "relpath p = (if p = [] then u ''.'' else join [sep] p)"

text \<open>\<open>os.path.join(a, b)\<close> on POSIX\<close>

definition path_join :: "ustr \<Rightarrow> ustr \<Rightarrow> ustr" where
  "path_join a b =
     (if startswith b [sep] then b
      else if a = [] \<or> endswith a [sep] then a @ b
      else a @ [sep] @ b)"

text \<open>
  \<open>list(os.walk(top, topdown=True))\<close>: one triple (directory, names of its
  sub-directories, its files) per directory of the tree, a directory before its
  sub-directories, sub-directories in listing order. The list is complete before the
  caller sees any triple. A file is kept with its data, which stands for the absolute
  path the source reads it from later.
\<close>

type_synonym walk_entry = "path \<times> ustr list \<times> (ustr \<times> fdata) list"

fun dirs_of :: "node list \<Rightarrow> ustr list" where
  "dirs_of [] = []"
| "dirs_of (File n d # es) = dirs_of es"
| "dirs_of (Dir n sub # es) = n # dirs_of es"

fun files_of :: "node list \<Rightarrow> (ustr \<times> fdata) list" where
  "files_of [] = []"
| "files_of (File n d # es) = (n, d) # files_of es"
| "files_of (Dir n sub # es) = files_of es"

fun os_walk :: "path \<Rightarrow> node list \<Rightarrow> walk_entry list"
  and walk_subdirs :: "path \<Rightarrow> node list \<Rightarrow> walk_entry list" where
  "os_walk dirpath es = (dirpath, dirs_of es, files_of es) # walk_subdirs dirpath es"
| "walk_subdirs dirpath [] = []"
| "walk_subdirs dirpath (File n d # es) = walk_subdirs dirpath es"
| "walk_subdirs dirpath (Dir n sub # es) =
     os_walk (dirpath @ [n]) sub @ walk_subdirs dirpath es"

section \<open>Exclusion\<close>

text \<open>
  \<open>fnmatch.fnmatch(name, pattern)\<close> belongs to Python's standard library. The functions
  below take it as the parameter \<open>fnm\<close>, and the general theorems hold for every matcher.
  \<open>glob\<close> is the matcher used on concrete inputs: \<open>*\<close> matches any run of characters
  (a \<open>/\<close> included), \<open>?\<close> matches one character, any other character matches itself.
  That is \<open>fnmatch\<close> on POSIX for a pattern without \<open>[\<close>; bracket expressions are not
  modelled, and no concrete input below uses one.
\<close>

type_synonym matcher = "ustr \<Rightarrow> ustr \<Rightarrow> bool"

fun glob_pat :: "ustr \<Rightarrow> ustr \<Rightarrow> bool" where
  "glob_pat [] [] = True"
| "glob_pat [] (c # cs) = False"
| "glob_pat (p # ps) [] = (p = 42 \<and> glob_pat ps [])"
| "glob_pat (p # ps) (c # cs) =
     (if p = 42 then glob_pat ps (c # cs) \<or> glob_pat (p # ps) cs
      else (p = 63 \<or> p = c) \<and> glob_pat ps cs)"

definition glob :: matcher where
  "glob name pat = glob_pat pat name"

text \<open>
  \<open>is_excluded(path_to_check, repo_root_in_temp)\<close> for a path below the root: the
  relative path or the last component matches some pattern.
\<close>

fun any_match :: "matcher \<Rightarrow> ustr list \<Rightarrow> ustr \<Rightarrow> ustr \<Rightarrow> bool" where
  "any_match fnm [] rel base = False"
| "any_match fnm (pattern # ps) rel base =
     (if fnm rel pattern \<or> fnm base pattern then True else any_match fnm ps rel base)"

definition is_excluded :: "matcher \<Rightarrow> ustr list \<Rightarrow> path \<Rightarrow> bool" where
  "is_excluded fnm exclude_patterns p =
     (if exclude_patterns = [] then False
      else any_match fnm exclude_patterns (relpath p) (last p))"

section \<open>The walk\<close>

record walk_state =
  structure_lines :: "ustr list"
  files_to_process :: "(ustr \<times> fdata) list"
  total_dirs :: nat
  total_files :: nat
  excluded_dirs_count :: nat
  excluded_files_count :: nat

definition walk_init :: walk_state where
  "walk_init = \<lparr>structure_lines = [], files_to_process = [], total_dirs = 0,
     total_files = 0, excluded_dirs_count = 0, excluded_files_count = 0\<rparr>"

text \<open>The inner loop \<open>for f in files\<close> over the filtered, sorted files of one directory.\<close>

definition add_file :: "ustr \<Rightarrow> ustr \<Rightarrow> walk_state \<Rightarrow> (ustr \<times> fdata) \<Rightarrow> walk_state" where
  "add_file file_indent relative_path st f =
     st\<lparr>structure_lines := structure_lines st @ [file_indent @ fst f @ NL],
        total_files := total_files st + 1,
        files_to_process := files_to_process st @
          [(if relative_path = u ''.'' then fst f else path_join relative_path (fst f), snd f)]\<rparr>"

text \<open>
  One iteration of \<open>for root, dirs, files in items_to_walk\<close>. The assignments
  \<open>dirs[:] = ...\<close> and \<open>dirs.sort()\<close> change a list that only this iteration reads (the
  walk has been completed already), so of the filtered directory list only its length
  has an effect. The root is never excluded (\<open>root != repo_root_in_temp\<close>).
\<close>

definition walk_step ::
  "matcher \<Rightarrow> ustr list \<Rightarrow> ustr \<Rightarrow> walk_state \<Rightarrow> walk_entry \<Rightarrow> walk_state" where
  "walk_step fnm exclude_patterns repo_display_name st e =
     (case e of (root, dirs, files) \<Rightarrow>
        if root \<noteq> [] \<and> is_excluded fnm exclude_patterns root then
          st\<lparr>excluded_dirs_count := excluded_dirs_count st + (1 + length dirs),
             excluded_files_count := excluded_files_count st + length files\<rparr>
        else
          let relative_path = relpath root;
              level = (if relative_path = u ''.'' then 0 else count_list relative_path sep + 1);
              line = (if relative_path = u ''.'' then repo_display_name @ u ''/'' @ NL
                      else rep level (u ''  '') @ u ''|-- '' @ last root @ u ''/'' @ NL);
              file_indent = rep (level + 1) (u ''  '') @ u ''|-- '';
              kept_dirs = filter (\<lambda>d. \<not> is_excluded fnm exclude_patterns (root @ [d])) dirs;
              filtered_files =
                filter (\<lambda>f. \<not> is_excluded fnm exclude_patterns (root @ [fst f])) files;
              st1 = st\<lparr>structure_lines := structure_lines st @ [line],
                       total_dirs := total_dirs st + 1,
                       excluded_dirs_count :=
                         excluded_dirs_count st + (length dirs - length kept_dirs),
                       excluded_files_count :=
                         excluded_files_count st + (length files - length filtered_files)\<rparr>
          in foldl (add_file file_indent relative_path) st1 (sort_key fst filtered_files))"

definition walk :: "matcher \<Rightarrow> ustr list \<Rightarrow> ustr \<Rightarrow> node list \<Rightarrow> walk_state" where
  "walk fnm exclude_patterns repo_display_name root_entries =
     foldl (walk_step fnm exclude_patterns repo_display_name) walk_init
       (os_walk [] root_entries)"

section \<open>Reading a file\<close>

datatype py_exc = UnicodeDecodeError | OSError ustr | OtherException ustr

datatype io_op = OpGetsize | OpReadBinary | OpReadUtf8 | OpReadLatin1

text \<open>\<open>os.path.getsize(full_path)\<close>\<close>

definition os_path_getsize :: "fdata \<Rightarrow> py_exc + nat" where
  "os_path_getsize f =
     (case fault f of Some (SizeFails m) \<Rightarrow> Inl (OSError m)
      | _ \<Rightarrow> Inr (length (file_bytes f)))"

text \<open>\<open>open(full_path, 'rb').read(n)\<close>\<close>

definition read_chunk :: "fdata \<Rightarrow> nat \<Rightarrow> py_exc + byte list" where
  "read_chunk f n =
     (case fault f of Some (ProbeFails m) \<Rightarrow> Inl (OSError m)
      | Some (ProbeFailsOther m) \<Rightarrow> Inl (OtherException m)
      | _ \<Rightarrow> Inr (take n (file_bytes f)))"

text \<open>
  The UTF-8 decoder of CPython, one character at a time. \<open>utf8_step\<close> looks at the
  first byte and those after it and returns the code point, or \<open>None\<close> for an error, with the number of
  bytes it covers: one byte for an invalid start byte, the bytes before the offending
  one for an invalid continuation byte, all that is left for a sequence cut off by the
  end of the data.
\<close>

definition is_cont :: "byte \<Rightarrow> bool" where
  "is_cont b = (0x80 \<le> b \<and> b \<le> 0xBF)"

definition low6 :: "byte \<Rightarrow> nat" where
  "low6 b = unat b - 0x80"

definition step2 :: "byte \<Rightarrow> byte list \<Rightarrow> nat option \<times> nat" where
  "step2 b0 bs =
     (case bs of
        [] \<Rightarrow> (None, 1)
      | b1 # _ \<Rightarrow>
          if \<not> is_cont b1 then (None, 1)
          else (Some ((unat b0 - 0xC0) * 64 + low6 b1), 2))"

definition step3 :: "byte \<Rightarrow> byte list \<Rightarrow> nat option \<times> nat" where
  "step3 b0 bs =
     (case bs of
        [] \<Rightarrow> (None, 1)
      | b1 # bs1 \<Rightarrow>
          if \<not> is_cont b1 \<or> (b0 = 0xE0 \<and> b1 < 0xA0) \<or> (b0 = 0xED \<and> 0xA0 \<le> b1)
          then (None, 1)
          else
            (case bs1 of
               [] \<Rightarrow> (None, 2)
             | b2 # _ \<Rightarrow>
                 if \<not> is_cont b2 then (None, 2)
                 else (Some ((unat b0 - 0xE0) * 4096 + low6 b1 * 64 + low6 b2), 3)))"

definition step4 :: "byte \<Rightarrow> byte list \<Rightarrow> nat option \<times> nat" where
  "step4 b0 bs =
     (case bs of
        [] \<Rightarrow> (None, 1)
      | b1 # bs1 \<Rightarrow>
          if \<not> is_cont b1 \<or> (b0 = 0xF0 \<and> b1 < 0x90) \<or> (b0 = 0xF4 \<and> 0x90 \<le> b1)
          then (None, 1)
          else
            (case bs1 of
               [] \<Rightarrow> (None, 2)
             | b2 # bs2 \<Rightarrow>
                 if \<not> is_cont b2 then (None, 2)
                 else
                   (case bs2 of
                      [] \<Rightarrow> (None, 3)
                    | b3 # _ \<Rightarrow>
                        if \<not> is_cont b3 then (None, 3)
                        else (Some ((unat b0 - 0xF0) * 262144 + low6 b1 * 4096
                                     + low6 b2 * 64 + low6 b3), 4))))"

definition utf8_step :: "byte \<Rightarrow> byte list \<Rightarrow> nat option \<times> nat" where
  "utf8_step b0 bs =
     (if b0 < 0x80 then (Some (unat b0), 1)
      else if b0 < 0xC2 then (None, 1)
      else if b0 < 0xE0 then step2 b0 bs
      else if b0 < 0xF0 then step3 b0 bs
      else if b0 < 0xF5 then step4 b0 bs
      else (None, 1))"

lemma step2_pos: "0 < snd (step2 b0 bs)"
  by (simp add: step2_def split: list.split)

lemma step3_pos: "0 < snd (step3 b0 bs)"
  by (simp add: step3_def split: list.split)

lemma step4_pos: "0 < snd (step4 b0 bs)"
  by (simp add: step4_def split: list.split)

lemma utf8_step_pos: "0 < snd (utf8_step b0 bs)"
  by (simp add: utf8_step_def step2_pos step3_pos step4_pos)

lemma utf8_step_drop: "utf8_step b bs = (r, n) \<Longrightarrow> length (drop n (b # bs)) < Suc (length bs)"
  using utf8_step_pos [of b bs] by (cases n) auto

text \<open>
  \<open>bytes.decode('utf-8', errors)\<close>: with \<open>errors='strict'\<close> the first error raises
  \<open>UnicodeDecodeError\<close>; with \<open>errors='replace'\<close> every error becomes one U+FFFD and
  decoding goes on after the bytes it covers.
\<close>

datatype errors_mode = Strict | Replace

function utf8_decode :: "errors_mode \<Rightarrow> byte list \<Rightarrow> py_exc + ustr" where
  "utf8_decode errors [] = Inr []"
| "utf8_decode errors (b # bs) =
     (case utf8_step b bs of
        (Some c, n) \<Rightarrow>
          (case utf8_decode errors (drop n (b # bs)) of
             Inl e \<Rightarrow> Inl e | Inr cs \<Rightarrow> Inr (c # cs))
      | (None, n) \<Rightarrow>
          (case errors of
             Strict \<Rightarrow> Inl UnicodeDecodeError
           | Replace \<Rightarrow>
               (case utf8_decode errors (drop n (b # bs)) of
                  Inl e \<Rightarrow> Inl e | Inr cs \<Rightarrow> Inr (0xFFFD # cs))))"
  by pat_completeness auto
termination
  by (relation "measure (\<lambda>(errors, bs). length bs)")
     (auto dest: utf8_step_drop [OF sym])

text \<open>
  Universal newlines: a text file opened without \<open>newline=\<close> gives \<open>\r\n\<close> and a lone
  \<open>\r\<close> as \<open>\n\<close>.
\<close>

fun translate_newlines :: "ustr \<Rightarrow> ustr" where
  "translate_newlines [] = []"
| "translate_newlines [c] = (if c = 13 then [10] else [c])"
| "translate_newlines (c # d # cs) =
     (if c = 13 \<and> d = 10 then 10 # translate_newlines cs
      else if c = 13 then 10 # translate_newlines (d # cs)
      else c # translate_newlines (d # cs))"

text \<open>\<open>open(full_path, 'r', encoding='utf-8', errors=errors).read()\<close>\<close>

definition read_text_utf8 :: "errors_mode \<Rightarrow> fdata \<Rightarrow> py_exc + ustr" where
  "read_text_utf8 errors f =
     (case fault f of Some (ReadFails m) \<Rightarrow> Inl (OSError m)
      | Some (ReadFailsOther m) \<Rightarrow> Inl (OtherException m)
      | _ \<Rightarrow>
          (case utf8_decode errors (file_bytes f) of
             Inl e \<Rightarrow> Inl e | Inr cs \<Rightarrow> Inr (translate_newlines cs)))"

text \<open>\<open>open(full_path, 'r', encoding='latin-1').read()\<close>: every byte is its own code point.\<close>

definition read_text_latin1 :: "fdata \<Rightarrow> py_exc + ustr" where
  "read_text_latin1 f =
     (case fault f of Some (ReadFails m) \<Rightarrow> Inl (OSError m)
      | Some (ReadFailsOther m) \<Rightarrow> Inl (OtherException m)
      | _ \<Rightarrow> Inr (translate_newlines (map unat (file_bytes f))))"

section \<open>Rendering the file contents\<close>

record render_state =
  output_lines :: "ustr list"
  processed_files :: nat
  skipped_binary :: nat
  skipped_size :: nat
  read_errors :: nat
  io_ops :: "io_op list"  \<comment> \<open>the file-system calls made so far, in order\<close>

definition render_init :: "ustr list \<Rightarrow> render_state" where
  "render_init lines = \<lparr>output_lines = lines, processed_files = 0, skipped_binary = 0,
     skipped_size = 0, read_errors = 0, io_ops = []\<rparr>"

definition emit :: "ustr \<Rightarrow> render_state \<Rightarrow> render_state" where
  "emit line st = st\<lparr>output_lines := output_lines st @ [line]\<rparr>"

definition did :: "io_op \<Rightarrow> render_state \<Rightarrow> render_state" where
  "did op st = st\<lparr>io_ops := io_ops st @ [op]\<rparr>"

definition count_read_error :: "render_state \<Rightarrow> render_state" where
  "count_read_error st = st\<lparr>read_errors := read_errors st + 1\<rparr>"

definition count_binary :: "render_state \<Rightarrow> render_state" where
  "count_binary st = st\<lparr>skipped_binary := skipped_binary st + 1\<rparr>"

definition count_size :: "render_state \<Rightarrow> render_state" where
  "count_size st = st\<lparr>skipped_size := skipped_size st + 1\<rparr>"

definition count_processed :: "render_state \<Rightarrow> render_state" where
  "count_processed st = st\<lparr>processed_files := processed_files st + 1\<rparr>"

definition begin_marker :: "ustr \<Rightarrow> ustr" where
  "begin_marker rel_path_header = u ''--- BEGIN FILE: '' @ rel_path_header @ u '' ---'' @ NL"

definition end_marker :: "ustr \<Rightarrow> ustr" where
  "end_marker rel_path_header =
     NL @ u ''--- END FILE: '' @ rel_path_header @ u '' ---'' @ NL @ NL"

definition size_notice :: "nat \<Rightarrow> int \<Rightarrow> ustr" where
  "size_notice file_size max_file_size_kb =
     u ''[File content skipped - size ('' @ fmt_kb file_size @ u '' KB) exceeds limit (''
       @ str_int max_file_size_kb @ u '' KB)]'' @ NL"

definition binary_notice :: ustr where
  "binary_notice = u ''[Binary file - content skipped]'' @ NL"

definition latin1_warning :: ustr where
  "latin1_warning = u ''[WARNING: Could not read as UTF-8, read as Latin-1]'' @ NL"

definition error_notice :: "string \<Rightarrow> ustr \<Rightarrow> ustr" where
  "error_notice what msg = u ''['' @ u what @ u '': '' @ msg @ u '']'' @ NL"

text \<open>The message of an exception, \<open>str(e)\<close>.\<close>

fun exc_msg :: "py_exc \<Rightarrow> ustr" where
  "exc_msg UnicodeDecodeError = u ''invalid utf-8''"
| "exc_msg (OSError m) = m"
| "exc_msg (OtherException m) = m"

text \<open>
  \<open>max_size_bytes\<close>: the limit in bytes, or \<open>None\<close> when no positive limit was given.
\<close>

definition max_size_bytes :: "int option \<Rightarrow> int option" where
  "max_size_bytes max_file_size_kb =
     (case max_file_size_kb of None \<Rightarrow> None
      | Some k \<Rightarrow> if k > 0 then Some (k * 1024) else None)"

definition exceeds :: "int option \<Rightarrow> nat \<Rightarrow> bool" where
  "exceeds max_file_size_kb file_size =
     (case max_size_bytes max_file_size_kb of None \<Rightarrow> False
      | Some m \<Rightarrow> int file_size > m)"

text \<open>
  The text branch of the loop body (\<open>is_binary\<close> false): the read with
  \<open>errors='replace'\<close>, and the handlers in the order of the source.
\<close>

definition read_content :: "fdata \<Rightarrow> render_state \<Rightarrow> render_state" where
  "read_content full_path st =
     (case read_text_utf8 Replace full_path of
        Inr content \<Rightarrow> emit content (did OpReadUtf8 st)
      | Inl UnicodeDecodeError \<Rightarrow>
          (case read_text_latin1 full_path of
             Inr content \<Rightarrow>
               emit content (emit latin1_warning (did OpReadLatin1 (did OpReadUtf8 st)))
           | Inl e_fallback \<Rightarrow>
               count_read_error
                 (emit (error_notice ''Error reading file (tried UTF-8, Latin-1)''
                          (exc_msg e_fallback))
                    (did OpReadLatin1 (did OpReadUtf8 st))))
      | Inl (OSError m) \<Rightarrow>
          count_read_error (emit (error_notice ''Error reading file'' m) (did OpReadUtf8 st))
      | Inl (OtherException m) \<Rightarrow>
          count_read_error
            (emit (error_notice ''Unexpected error reading file'' m) (did OpReadUtf8 st)))"

text \<open>
  The binary check and what follows it, for a file that passed the size check.
  \<open>skipped_binary\<close> is incremented where \<open>is_binary\<close> is set.
\<close>

definition check_binary :: "ustr \<Rightarrow> fdata \<Rightarrow> render_state \<Rightarrow> render_state" where
  "check_binary rel_path_header full_path st =
     (case read_chunk full_path 1024 of
        Inl (OSError m) \<Rightarrow>
          emit (end_marker rel_path_header)
            (count_read_error
               (emit (error_notice ''Error checking if file is binary'' m)
                  (did OpReadBinary st)))
      | Inl e \<Rightarrow>
          emit (end_marker rel_path_header)
            (count_read_error
               (emit (error_notice ''Unexpected error checking if file is binary'' (exc_msg e))
                  (did OpReadBinary st)))
      | Inr chunk \<Rightarrow>
          if 0 \<in> set chunk then
            emit (end_marker rel_path_header)
              (emit binary_notice (count_binary (did OpReadBinary st)))
          else
            emit (end_marker rel_path_header) (read_content full_path (did OpReadBinary st)))"

text \<open>One iteration of \<open>for rel_path_header, full_path in files_to_process\<close>.\<close>

definition render_file :: "int option \<Rightarrow> render_state \<Rightarrow> ustr \<times> fdata \<Rightarrow> render_state" where
  "render_file max_file_size_kb st0 r =
     (case r of (rel_path_header, full_path) \<Rightarrow>
        let st = emit (begin_marker rel_path_header) (count_processed st0)
        in case os_path_getsize full_path of
             Inl e_size \<Rightarrow>
               emit (end_marker rel_path_header)
                 (count_read_error
                    (emit (error_notice ''Error checking file size'' (exc_msg e_size))
                       (did OpGetsize st)))
           | Inr file_size \<Rightarrow>
               if exceeds max_file_size_kb file_size then
                 emit (end_marker rel_path_header)
                   (count_size
                      (emit (size_notice file_size (the max_file_size_kb)) (did OpGetsize st)))
               else check_binary rel_path_header full_path (did OpGetsize st))"

definition render_all ::
  "int option \<Rightarrow> render_state \<Rightarrow> (ustr \<times> fdata) list \<Rightarrow> render_state" where
  "render_all max_file_size_kb st records = foldl (render_file max_file_size_kb) st records"

text \<open>The lines one record adds to the report: its content block.\<close>

definition block :: "int option \<Rightarrow> ustr \<times> fdata \<Rightarrow> ustr list" where
  "block max_file_size_kb r = output_lines (render_file max_file_size_kb (render_init []) r)"

section \<open>The whole run\<close>

text \<open>
  \<open>str.lower()\<close> on the ASCII letters. No other character has a lower-case form that
  ends in one of \<open>.\<close>, \<open>z\<close>, \<open>i\<close>, \<open>p\<close>, so the test \<open>lower().endswith('.zip')\<close> is the
  same with the full Unicode mapping.
\<close>

definition lower :: "ustr \<Rightarrow> ustr" where
  "lower s = map (\<lambda>c. if 65 \<le> c \<and> c \<le> 90 then c + 32 else c) s"

text \<open>\<open>os.path.basename(p)\<close>: what follows the last \<open>/\<close>.\<close>

definition basename :: "ustr \<Rightarrow> ustr" where
  "basename p = rev (takeWhile (\<lambda>c. c \<noteq> sep) (rev p))"

text \<open>
  \<open>os.path.splitext(name)[0]\<close> for a name without \<open>/\<close>: the name up to its last dot,
  when some character before that dot is not a dot; the whole name otherwise.
\<close>

definition splitext_root :: "ustr \<Rightarrow> ustr" where
  "splitext_root name =
     (let stem = rev (drop 1 (dropWhile (\<lambda>c. c \<noteq> 46) (rev name)))
      in if 46 \<in> set name \<and> (\<exists>c \<in> set stem. c \<noteq> 46) then stem else name)"

text \<open>
  Root resolution (step 4 of the source). \<open>repo_root\<close> is \<open>None\<close> for the extraction
  directory itself and \<open>Some d\<close> for its sub-directory \<open>d\<close>; \<open>root_entries\<close> is the
  listing of the chosen root.
\<close>

record root_choice =
  repo_root :: "ustr option"
  root_entries :: "node list"
  repo_display_name :: ustr

fun children :: "node \<Rightarrow> node list" where
  "children (File n d) = []"
| "children (Dir n es) = es"

definition potential_dirs :: "node list \<Rightarrow> node list" where
  "potential_dirs extracted_items =
     filter (\<lambda>d. is_dir d \<and> \<not> startswith (node_name d) (u ''.'')) extracted_items"

definition resolve_root :: "node list \<Rightarrow> ustr \<Rightarrow> root_choice" where
  "resolve_root extracted_items base_name_zip =
     (if length (potential_dirs extracted_items) = 1 then
        \<lparr>repo_root = Some (node_name (hd (potential_dirs extracted_items))),
         root_entries = children (hd (potential_dirs extracted_items)),
         repo_display_name = node_name (hd (potential_dirs extracted_items))\<rparr>
      else
        \<lparr>repo_root = None, root_entries = extracted_items,
         repo_display_name = base_name_zip\<rparr>)"

text \<open>The lines of the report before the structure listing (step 5 and the head of 6).\<close>

definition report_header :: "ustr \<Rightarrow> ustr list \<Rightarrow> int option \<Rightarrow> ustr list" where
  "report_header zip_path exclude_patterns max_file_size_kb =
     [u ''Repository structure and content from file: '' @ basename zip_path @ NL]
     @ (if exclude_patterns \<noteq> []
        then [u ''Applied exclusion patterns: '' @ join (u '', '') exclude_patterns @ NL]
        else [])
     @ (if max_size_bytes max_file_size_kb \<noteq> None
        then [u ''Applied max file size limit: '' @ str_int (the max_file_size_kb)
                @ u '' KB'' @ NL]
        else [])
     @ [rep 80 (u ''='') @ NL, u ''DIRECTORY STRUCTURE:'' @ NL, rep 80 (u ''-'') @ NL]"

text \<open>The lines between the structure listing and the first file block.\<close>

definition structure_footer :: "walk_state \<Rightarrow> ustr list" where
  "structure_footer w =
     [NL @ u ''(Included directories: '' @ digits (total_dirs w)
        @ u '', Included files: '' @ digits (total_files w)]
     @ (if excluded_dirs_count w > 0 \<or> excluded_files_count w > 0
        then [u '', Excluded dirs: '' @ digits (excluded_dirs_count w)
                @ u '', Excluded files: '' @ digits (excluded_files_count w)]
        else [])
     @ [u '')'' @ NL, NL @ rep 80 (u ''='') @ NL, u ''FILE CONTENTS:'' @ NL,
        rep 80 (u ''-'') @ NL @ NL]"

text \<open>
  The environment of one call: whether the input path exists; whether opening the
  archive raises \<open>BadZipFile\<close> (the \<open>ZipFile\<close> constructor rejects the file, before
  anything is extracted), \<open>extractall\<close> raises, or the tree is extracted; and whether the
  report can be written (creating the output directory included).
\<close>

datatype extract_result = BadZipFile | ExtractionFails ustr | Extracted "node list"

datatype write_result = WriteOk | WriteIOError ustr | WriteFails ustr

record env =
  path_exists :: bool
  extraction :: extract_result
  write_outcome :: write_result

text \<open>
  What a call does to the outside: the temporary directory, the extraction, the report
  file with its text. \<open>summary\<close> holds the counters printed after a successful write
  (\<open>Included Files\<close> is \<open>processed_files\<close>).
\<close>

datatype event = TempDirCreated | ExtractAll | OutputWritten ustr | TempDirRemoved

record run =
  success :: bool
  events :: "event list"
  walked :: "walk_state option"
  summary :: "render_state option"

definition failed :: "event list \<Rightarrow> run" where
  "failed evs = \<lparr>success = False, events = evs, walked = None, summary = None\<rparr>"

text \<open>Steps 4 to 7 on the extracted tree: the walk and the rendering.\<close>

definition aggregate ::
  "matcher \<Rightarrow> ustr \<Rightarrow> ustr list \<Rightarrow> int option \<Rightarrow> node list \<Rightarrow> walk_state \<times> render_state"
  where
  "aggregate fnm zip_path exclude_patterns max_file_size_kb extracted_items =
     (let rc = resolve_root extracted_items (splitext_root (basename zip_path));
          w = walk fnm exclude_patterns (repo_display_name rc) (root_entries rc);
          lines = report_header zip_path exclude_patterns max_file_size_kb
                    @ structure_lines w @ structure_footer w
      in (w, render_all max_file_size_kb (render_init lines) (files_to_process w)))"

definition generate_repository_description ::
  "matcher \<Rightarrow> env \<Rightarrow> ustr \<Rightarrow> ustr list \<Rightarrow> int option \<Rightarrow> run" where
  "generate_repository_description fnm environment zip_path exclude_patterns max_file_size_kb =
     (if \<not> path_exists environment then failed []
      else if \<not> endswith (lower zip_path) (u ''.zip'') then failed []
      else
        (case extraction environment of
           BadZipFile \<Rightarrow> failed [TempDirCreated, TempDirRemoved]
         | ExtractionFails m \<Rightarrow> failed [TempDirCreated, ExtractAll, TempDirRemoved]
         | Extracted extracted_items \<Rightarrow>
             (case aggregate fnm zip_path exclude_patterns max_file_size_kb extracted_items of
                (w, rs) \<Rightarrow>
                  (case write_outcome environment of
                     WriteOk \<Rightarrow>
                       \<lparr>success = True,
                        events = [TempDirCreated, ExtractAll,
                                  OutputWritten (concat (output_lines rs)), TempDirRemoved],
                        walked = Some w, summary = Some rs\<rparr>
                   | WriteIOError m \<Rightarrow> failed [TempDirCreated, ExtractAll, TempDirRemoved]
                   | WriteFails m \<Rightarrow> failed [TempDirCreated, ExtractAll, TempDirRemoved]))))"

section \<open>Specification vocabulary and sample inputs\<close>

text \<open>
  \<open>fails\<close> says that a file-system call the loop makes on a file raises: the size
  check, or (for a file within the limit) the binary probe, or (for a file that is not
  binary) the text read.
\<close>

definition fails :: "int option \<Rightarrow> fdata \<Rightarrow> bool" where
  "fails max_file_size_kb f =
     (case os_path_getsize f of
        Inl e \<Rightarrow> True
      | Inr n \<Rightarrow>
          \<not> exceeds max_file_size_kb n \<and>
          (case read_chunk f 1024 of
             Inl e \<Rightarrow> True
           | Inr chunk \<Rightarrow>
               0 \<notin> set chunk \<and>
               (case read_text_utf8 Replace f of Inl e \<Rightarrow> True | Inr t \<Rightarrow> False)))"

text \<open>Files used as concrete inputs.\<close>

definition sample_binary :: fdata where
  "sample_binary = \<lparr>file_bytes = [0, 1, 2], fault = None\<rparr>"

definition sample_text :: fdata where
  "sample_text = \<lparr>file_bytes = [0x68, 0x65, 0x6C, 0x6C, 0x6F], fault = None\<rparr>"

definition crlf_file :: fdata where
  "crlf_file = \<lparr>file_bytes = [0x61, 0x0D, 0x0A, 0x62], fault = None\<rparr>"

definition text_of_size :: "nat \<Rightarrow> fdata" where
  "text_of_size n = \<lparr>file_bytes = replicate n 0x61, fault = None\<rparr>"

definition null_block_file :: fdata where
  "null_block_file = \<lparr>file_bytes = replicate 1024 0, fault = None\<rparr>"

definition big_file :: fdata where
  "big_file = \<lparr>file_bytes = replicate 2048 0x61, fault = None\<rparr>"

definition locked_file :: fdata where
  "locked_file = \<lparr>file_bytes = [], fault = Some (ProbeFails (u ''[Errno 13] Permission denied''))\<rparr>"

definition invalid_utf8_file :: fdata where
  "invalid_utf8_file = \<lparr>file_bytes = [0x63, 0x61, 0x66, 0xE9], fault = None\<rparr>"

definition sample_tree :: "node list" where
  "sample_tree =
     [Dir (u ''proj'')
        [File (u ''big.txt'') big_file, File (u ''a.txt'') sample_text,
         File (u ''bin.dat'') sample_binary, File (u ''key.pem'') locked_file]]"

definition sample_env :: env where
  "sample_env = \<lparr>path_exists = True, extraction = Extracted sample_tree,
     write_outcome = WriteOk\<rparr>"

section \<open>Facts about decoding and rendering\<close>

lemma utf8_replace_total: "\<exists>cs. utf8_decode Replace bs = Inr cs"
proof (induction "length bs" arbitrary: bs rule: less_induct)
  case less
  show ?case
  proof (cases bs)
    case Nil
    then show ?thesis by simp
  next
    case (Cons b bs')
    obtain r n where step: "utf8_step b bs' = (r, n)" by (cases "utf8_step b bs'")
    have "length (drop n (b # bs')) < length bs"
      using utf8_step_drop [OF step] Cons by simp
    from less [OF this] obtain cs where "utf8_decode Replace (drop n (b # bs')) = Inr cs" ..
    with step Cons show ?thesis by (cases r) simp_all
  qed
qed

lemma utf8_strict_replace: "utf8_decode Strict bs = Inr s \<Longrightarrow> utf8_decode Replace bs = Inr s"
proof (induction "length bs" arbitrary: bs s rule: less_induct)
  case less
  show ?case
  proof (cases bs)
    case Nil
    with less.prems show ?thesis by simp
  next
    case (Cons b bs')
    obtain r n where step: "utf8_step b bs' = (r, n)" by (cases "utf8_step b bs'")
    have shorter: "length (drop n (b # bs')) < length bs"
      using utf8_step_drop [OF step] Cons by simp
    from less.prems Cons step obtain c cs where
      r: "r = Some c" and cs: "utf8_decode Strict (drop n (b # bs')) = Inr cs" and s: "s = c # cs"
      by (cases r) (auto split: sum.splits)
    from less.hyps [OF shorter cs] have "utf8_decode Replace (drop n (b # bs')) = Inr cs" .
    with step Cons r s show ?thesis by simp
  qed
qed

lemma translate_newlines_id: "13 \<notin> set s \<Longrightarrow> translate_newlines s = s"
  by (induction s rule: translate_newlines.induct) auto

lemma read_text_replace_no_decode_error: "read_text_utf8 Replace f \<noteq> Inl UnicodeDecodeError"
  using utf8_replace_total [of "file_bytes f"]
  by (auto simp: read_text_utf8_def split: option.splits io_fault.splits sum.splits)

lemma render_text_file:
  assumes "fault f = None" and "\<not> exceeds kb (length (file_bytes f))"
    and "0 \<notin> set (take 1024 (file_bytes f))"
    and "utf8_decode Replace (file_bytes f) = Inr cs"
  shows "render_file kb st (h, f) =
     st\<lparr>output_lines := output_lines st @ [begin_marker h, translate_newlines cs, end_marker h],
        processed_files := processed_files st + 1,
        io_ops := io_ops st @ [OpGetsize, OpReadBinary, OpReadUtf8]\<rparr>"
  using assms
  by (simp add: render_file_def check_binary_def read_content_def os_path_getsize_def
      read_chunk_def read_text_utf8_def emit_def did_def count_processed_def)

lemma read_content_lines:
  "\<exists>x. output_lines (read_content f st) = output_lines st @ [x]"
  using read_text_replace_no_decode_error [of f]
  by (auto simp: read_content_def emit_def did_def count_read_error_def
      split: sum.splits py_exc.splits)

lemma check_binary_lines:
  "\<exists>x. output_lines (check_binary h f st) = output_lines st @ [x, end_marker h]"
  using read_content_lines [of f "did OpReadBinary st"]
  by (auto simp: check_binary_def emit_def did_def count_read_error_def count_binary_def
      split: sum.splits py_exc.splits)

lemma render_file_lines:
  "\<exists>x. output_lines (render_file kb st (h, f)) = output_lines st @ [begin_marker h, x, end_marker h]"
proof -
  obtain x where
    "output_lines (check_binary h f (did OpGetsize (emit (begin_marker h) (count_processed st))))
       = output_lines (did OpGetsize (emit (begin_marker h) (count_processed st))) @ [x, end_marker h]"
    using check_binary_lines by blast
  then show ?thesis
    by (simp add: render_file_def Let_def emit_def did_def count_read_error_def count_size_def
        count_processed_def split: sum.splits)
qed

lemma render_file_processed:
  "processed_files (render_file kb st r) = processed_files st + 1"
proof -
  have rc: "\<And>f s. processed_files (read_content f s) = processed_files s"
    by (simp add: read_content_def emit_def did_def count_read_error_def
        split: sum.splits py_exc.splits)
  have cb: "\<And>h f s. processed_files (check_binary h f s) = processed_files s"
    by (simp add: check_binary_def rc emit_def did_def count_read_error_def count_binary_def
        split: sum.splits py_exc.splits)
  show ?thesis
    by (cases r) (simp add: render_file_def Let_def cb emit_def did_def count_read_error_def
        count_size_def count_processed_def split: sum.splits)
qed

lemma block_shape: "\<exists>x. block kb (h, f) = [begin_marker h, x, end_marker h]"
  using render_file_lines [of kb "render_init []" h f] by (simp add: block_def render_init_def)

lemma read_content_lines_indep:
  "output_lines (read_content f st) = output_lines st @ output_lines (read_content f (render_init []))"
  by (simp add: read_content_def emit_def did_def count_read_error_def render_init_def
      split: sum.splits py_exc.splits)

lemma check_binary_lines_indep:
  "output_lines (check_binary h f st) =
     output_lines st @ output_lines (check_binary h f (render_init []))"
  using read_content_lines_indep [of f "did OpReadBinary st"]
    read_content_lines_indep [of f "did OpReadBinary (render_init [])"]
  by (simp add: check_binary_def emit_def did_def count_read_error_def count_binary_def render_init_def
      split: sum.splits py_exc.splits)

lemma render_file_block:
  "output_lines (render_file kb st r) = output_lines st @ block kb r"
proof (cases r)
  case (Pair h f)
  let ?s = "\<lambda>st. did OpGetsize (emit (begin_marker h) (count_processed st))"
  have "output_lines (check_binary h f (?s st)) =
     output_lines st @ output_lines (check_binary h f (?s (render_init [])))"
    using check_binary_lines_indep [of h f "?s st"] check_binary_lines_indep [of h f "?s (render_init [])"]
    by (simp add: emit_def did_def count_processed_def render_init_def)
  then show ?thesis using Pair
    by (simp add: block_def render_file_def Let_def emit_def did_def count_read_error_def
        count_size_def count_processed_def render_init_def split: sum.splits)
qed

lemma render_all_lines:
  "output_lines (render_all kb st rs) = output_lines st @ concat (map (block kb) rs)"
proof (induction rs arbitrary: st)
  case Nil
  show ?case by (simp add: render_all_def)
next
  case (Cons r rs)
  have "render_all kb st (r # rs) = render_all kb (render_file kb st r) rs"
    by (simp add: render_all_def)
  then show ?case using Cons [of "render_file kb st r"] by (simp add: render_file_block)
qed

lemma render_all_processed:
  "processed_files (render_all kb st rs) = processed_files st + length rs"
proof (induction rs arbitrary: st)
  case Nil
  show ?case by (simp add: render_all_def)
next
  case (Cons r rs)
  have "render_all kb st (r # rs) = render_all kb (render_file kb st r) rs"
    by (simp add: render_all_def)
  then show ?case using Cons [of "render_file kb st r"] by (simp add: render_file_processed)
qed

lemma probe_null_iff:
  "(\<exists>i < min 1024 (length bs). bs ! i = (0::byte)) \<longleftrightarrow> 0 \<in> set (take 1024 bs)"
  by (auto simp: in_set_conv_nth)

lemma render_binary_file:
  assumes "fault f = None" and "\<not> exceeds kb (length (file_bytes f))"
    and "0 \<in> set (take 1024 (file_bytes f))"
  shows "render_file kb st (h, f) =
     st\<lparr>output_lines := output_lines st @ [begin_marker h, binary_notice, end_marker h],
        processed_files := processed_files st + 1,
        skipped_binary := skipped_binary st + 1,
        io_ops := io_ops st @ [OpGetsize, OpReadBinary]\<rparr>"
  using assms
  by (simp add: render_file_def check_binary_def os_path_getsize_def
      read_chunk_def emit_def did_def count_processed_def count_binary_def)

lemma render_oversized_file:
  assumes "os_path_getsize f = Inr n" and "exceeds kb n"
  shows "render_file kb st (h, f) =
     st\<lparr>output_lines := output_lines st @ [begin_marker h, size_notice n (the kb), end_marker h],
        processed_files := processed_files st + 1,
        skipped_size := skipped_size st + 1,
        io_ops := io_ops st @ [OpGetsize]\<rparr>"
  using assms
  by (simp add: render_file_def emit_def did_def count_processed_def count_size_def)

lemma render_file_no_limit:
  assumes "os_path_getsize f = Inr n" and "\<not> exceeds kb n"
  shows "render_file kb st (h, f) = render_file None st (h, f)"
  using assms
  by (simp add: render_file_def exceeds_def max_size_bytes_def)

lemma render_file_skipped_size:
  "skipped_size (render_file kb st (h, f)) =
     (case os_path_getsize f of Inl e \<Rightarrow> skipped_size st
      | Inr n \<Rightarrow> if exceeds kb n then skipped_size st + 1 else skipped_size st)"
proof -
  have rc: "\<And>f s. skipped_size (read_content f s) = skipped_size s"
    by (simp add: read_content_def emit_def did_def count_read_error_def
        split: sum.splits py_exc.splits)
  have cb: "\<And>h f s. skipped_size (check_binary h f s) = skipped_size s"
    by (simp add: check_binary_def rc emit_def did_def count_read_error_def count_binary_def
        split: sum.splits py_exc.splits)
  show ?thesis
    by (simp add: render_file_def Let_def cb emit_def did_def count_read_error_def
        count_size_def count_processed_def split: sum.splits)
qed

lemma read_content_counters:
  "processed_files (read_content f s) = processed_files s
   \<and> skipped_binary (read_content f s) = skipped_binary s
   \<and> skipped_size (read_content f s) = skipped_size s"
  by (simp add: read_content_def emit_def did_def count_read_error_def
      split: sum.splits py_exc.splits)

lemma render_file_failure:
  assumes "fails kb f"
  shows "(\<exists>what msg. output_lines (render_file kb st (h, f)) =
            output_lines st @ [begin_marker h, error_notice what msg, end_marker h])
       \<and> read_errors (render_file kb st (h, f)) = read_errors st + 1
       \<and> processed_files (render_file kb st (h, f)) = processed_files st + 1
       \<and> skipped_binary (render_file kb st (h, f)) = skipped_binary st
       \<and> skipped_size (render_file kb st (h, f)) = skipped_size st"
proof (cases "os_path_getsize f")
  case (Inl e)
  then show ?thesis
    by (auto simp: render_file_def emit_def did_def count_processed_def count_read_error_def)
next
  case (Inr n)
  with assms have ne: "\<not> exceeds kb n" by (simp add: fails_def)
  show ?thesis
  proof (cases "read_chunk f 1024")
    case (Inl e)
    with Inr ne show ?thesis
      by (cases e) (auto simp: render_file_def check_binary_def emit_def did_def
          count_processed_def count_read_error_def)
  next
    case chunk: (Inr chunk)
    with assms Inr ne have nz: "0 \<notin> set chunk" and
      rd: "\<exists>e. read_text_utf8 Replace f = Inl e"
      by (auto simp: fails_def split: sum.splits)
    from rd obtain e where e: "read_text_utf8 Replace f = Inl e" ..
    with read_text_replace_no_decode_error [of f] have "e \<noteq> UnicodeDecodeError" by auto
    with Inr ne chunk nz e show ?thesis
      by (cases e) (auto simp: render_file_def check_binary_def read_content_def emit_def did_def
          count_processed_def count_read_error_def)
  qed
qed

lemma render_file_read_errors:
  "read_errors (render_file kb st (h, f)) = read_errors st + (if fails kb f then 1 else 0)"
proof (cases "fails kb f")
  case True
  from render_file_failure [OF True, of st h] True show ?thesis by simp
next
  case False
  then show ?thesis
    by (auto simp: fails_def render_file_def check_binary_def read_content_def emit_def did_def
        count_processed_def count_read_error_def count_binary_def count_size_def Let_def
        split: sum.splits py_exc.splits)
qed

lemma render_all_read_errors:
  "read_errors (render_all kb st rs) =
     read_errors st + length (filter (\<lambda>r. fails kb (snd r)) rs)"
proof (induction rs arbitrary: st)
  case Nil
  show ?case by (simp add: render_all_def)
next
  case (Cons r rs)
  obtain h f where r: "r = (h, f)" by (cases r)
  have "render_all kb st (r # rs) = render_all kb (render_file kb st r) rs"
    by (simp add: render_all_def)
  then show ?case using Cons [of "render_file kb st r"] r
    by (simp add: render_file_read_errors)
qed

lemma add_files_counts:
  "total_files (foldl (add_file fi rp) st fs) = total_files st + length fs
   \<and> length (files_to_process (foldl (add_file fi rp) st fs)) = length (files_to_process st) + length fs
   \<and> length (structure_lines (foldl (add_file fi rp) st fs)) = length (structure_lines st) + length fs
   \<and> total_dirs (foldl (add_file fi rp) st fs) = total_dirs st"
  by (induction fs arbitrary: st) (simp_all add: add_file_def)

lemma walk_step_counts:
  assumes "total_files st = length (files_to_process st)"
    and "length (structure_lines st) = total_dirs st + total_files st"
  shows "total_files (walk_step fnm pats dn st e) = length (files_to_process (walk_step fnm pats dn st e))
       \<and> length (structure_lines (walk_step fnm pats dn st e)) =
           total_dirs (walk_step fnm pats dn st e) + total_files (walk_step fnm pats dn st e)"
  using assms
  by (cases e) (simp add: walk_step_def Let_def add_files_counts)

lemma walk_foldl_counts:
  assumes "total_files st = length (files_to_process st)"
    and "length (structure_lines st) = total_dirs st + total_files st"
  shows "total_files (foldl (walk_step fnm pats dn) st es) =
           length (files_to_process (foldl (walk_step fnm pats dn) st es))
       \<and> length (structure_lines (foldl (walk_step fnm pats dn) st es)) =
           total_dirs (foldl (walk_step fnm pats dn) st es)
           + total_files (foldl (walk_step fnm pats dn) st es)"
  using assms
proof (induction es arbitrary: st)
  case Nil
  then show ?case by simp
next
  case (Cons e es)
  from walk_step_counts [OF Cons.prems, of fnm pats dn e]
  show ?case using Cons.IH [of "walk_step fnm pats dn st e"] by simp
qed

lemma walk_counts:
  "total_files (walk fnm pats dn es) = length (files_to_process (walk fnm pats dn es))
   \<and> length (structure_lines (walk fnm pats dn es)) =
       total_dirs (walk fnm pats dn es) + total_files (walk fnm pats dn es)"
  unfolding walk_def
  by (rule walk_foldl_counts) (simp_all add: walk_init_def)

lemma render_file_skip_counters:
  "skipped_binary (render_file kb st r) + skipped_size (render_file kb st r)
     + read_errors (render_file kb st r)
   \<le> skipped_binary st + skipped_size st + read_errors st + 1"
  by (cases r) (auto simp: render_file_def check_binary_def read_content_def emit_def did_def
        count_processed_def count_read_error_def count_binary_def count_size_def Let_def
        split: sum.splits py_exc.splits)

lemma render_all_skip_counters:
  "skipped_binary (render_all kb st rs) + skipped_size (render_all kb st rs)
     + read_errors (render_all kb st rs)
   \<le> skipped_binary st + skipped_size st + read_errors st + length rs"
proof (induction rs arbitrary: st)
  case Nil
  show ?case by (simp add: render_all_def)
next
  case (Cons r rs)
  have "render_all kb st (r # rs) = render_all kb (render_file kb st r) rs"
    by (simp add: render_all_def)
  then show ?case
    using Cons [of "render_file kb st r"] render_file_skip_counters [of kb st r] by simp
qed

lemma run_success:
  assumes "success (generate_repository_description fnm environment zip_path pats kb)"
  shows "\<exists>items. path_exists environment \<and> endswith (lower zip_path) (u ''.zip'')
           \<and> extraction environment = Extracted items
           \<and> write_outcome environment = WriteOk
           \<and> generate_repository_description fnm environment zip_path pats kb =
               \<lparr>success = True,
                events = [TempDirCreated, ExtractAll,
                          OutputWritten (concat (output_lines (snd (aggregate fnm zip_path pats kb items)))),
                          TempDirRemoved],
                walked = Some (fst (aggregate fnm zip_path pats kb items)),
                summary = Some (snd (aggregate fnm zip_path pats kb items))\<rparr>"
  using assms
  by (auto simp: generate_repository_description_def failed_def
      split: if_splits extract_result.splits write_result.splits prod.splits)

lemma run_ok:
  assumes "path_exists environment" and "endswith (lower zip_path) (u ''.zip'')"
    and "extraction environment = Extracted items"
    and "write_outcome environment = WriteOk"
  shows "generate_repository_description fnm environment zip_path pats kb =
               \<lparr>success = True,
                events = [TempDirCreated, ExtractAll,
                          OutputWritten (concat (output_lines (snd (aggregate fnm zip_path pats kb items)))),
                          TempDirRemoved],
                walked = Some (fst (aggregate fnm zip_path pats kb items)),
                summary = Some (snd (aggregate fnm zip_path pats kb items))\<rparr>"
  using assms
  by (auto simp: generate_repository_description_def split: prod.splits)

lemma aggregate_render:
  "snd (aggregate fnm zip_path pats kb items) =
     render_all kb
       (render_init (report_header zip_path pats kb
          @ structure_lines (fst (aggregate fnm zip_path pats kb items))
          @ structure_footer (fst (aggregate fnm zip_path pats kb items))))
       (files_to_process (fst (aggregate fnm zip_path pats kb items)))"
  by (simp add: aggregate_def Let_def)

lemma aggregate_walk:
  "fst (aggregate fnm zip_path pats kb items) =
     walk fnm pats
       (repo_display_name (resolve_root items (splitext_root (basename zip_path))))
       (root_entries (resolve_root items (splitext_root (basename zip_path))))"
  by (simp add: aggregate_def Let_def)

lemma utf8_decode_letters: "utf8_decode errors (replicate n 0x61) = Inr (replicate n 97)"
  by (induction n) (simp_all add: utf8_step_def)

lemma fmt_kb_1025: "fmt_kb 1025 = u ''1.0''"
  by (simp add: fmt_kb_def tenths_kb_def round53_def digits.simps u_def)

lemma str_int_1: "str_int 1 = u ''1''"
  by (simp add: str_int_def digits.simps u_def)

lemma sample_zip: "endswith (lower (u ''/tmp/proj.zip'')) (u ''.zip'')"
  by (simp add: endswith_def lower_def u_def)

lemma sample_files:
  "files_to_process (fst (aggregate glob (u ''/tmp/proj.zip'') [] (Some 1) sample_tree)) =
     [(u ''a.txt'', sample_text), (u ''big.txt'', big_file), (u ''bin.dat'', sample_binary),
      (u ''key.pem'', locked_file)]"
  by (simp add: aggregate_def resolve_root_def potential_dirs_def sample_tree_def startswith_def
      walk_def walk_step_def walk_init_def add_file_def relpath_def is_excluded_def u_def Let_def)

lemma render_all_append:
  "render_all kb st (before @ r # rest) =
     render_all kb (render_file kb (render_all kb st before) r) rest"
  by (simp add: render_all_def)

lemma resolve_single:
  assumes "potential_dirs items = [Dir d es]"
  shows "resolve_root items base = \<lparr>repo_root = Some d, root_entries = es, repo_display_name = d\<rparr>"
  using assms by (simp add: resolve_root_def)

lemma potential_dirs_are_dirs: "n \<in> set (potential_dirs items) \<Longrightarrow> \<exists>d es. n = Dir d es"
  by (cases n) (auto simp: potential_dirs_def)

lemma add_files_lines:
  "structure_lines (foldl (add_file fi rp) st fs) =
     structure_lines st @ map (\<lambda>f. fi @ fst f @ NL) fs"
  by (induction fs arbitrary: st) (simp_all add: add_file_def)

lemma walk_step_lines:
  "\<exists>ys. structure_lines (walk_step fnm pats dn st e) = structure_lines st @ ys"
proof (cases e)
  case (fields root dirs files)
  show ?thesis
  proof (cases "root \<noteq> [] \<and> is_excluded fnm pats root")
    case True
    with fields show ?thesis by (simp add: walk_step_def)
  next
    case False
    with fields show ?thesis
      by (simp add: walk_step_def Let_def add_files_lines)
  qed
qed

text \<open>The files of a directory that is not skipped are listed in sorted order.\<close>

lemma walk_step_files_sorted:
  assumes "\<not> (root \<noteq> [] \<and> is_excluded fnm pats root)"
  shows "\<exists>line indent.
           structure_lines (walk_step fnm pats dn st (root, dirs, files)) =
             structure_lines st @ line
               # map (\<lambda>f. indent @ fst f @ NL)
                   (sort_key fst [f \<leftarrow> files. \<not> is_excluded fnm pats (root @ [fst f])])
         \<and> sorted (map fst (sort_key fst [f \<leftarrow> files. \<not> is_excluded fnm pats (root @ [fst f])]))"
  using assms by (simp add: walk_step_def Let_def add_files_lines)

lemma walk_foldl_lines:
  "\<exists>ys. structure_lines (foldl (walk_step fnm pats dn) st es) = structure_lines st @ ys"
proof (induction es arbitrary: st)
  case Nil
  show ?case by simp
next
  case (Cons e es)
  from walk_step_lines [of fnm pats dn st e] obtain ys where
    ys: "structure_lines (walk_step fnm pats dn st e) = structure_lines st @ ys" ..
  from Cons [of "walk_step fnm pats dn st e"] obtain zs where
    "structure_lines (foldl (walk_step fnm pats dn) (walk_step fnm pats dn st e) es) =
       structure_lines (walk_step fnm pats dn st e) @ zs" ..
  with ys show ?case by simp
qed

lemma walk_first_line:
  "\<exists>ys. structure_lines (walk fnm pats dn es) = (dn @ u ''/'' @ NL) # ys"
proof -
  have first: "\<exists>ys. structure_lines (walk_step fnm pats dn walk_init ([], dirs_of es, files_of es))
                  = (dn @ u ''/'' @ NL) # ys"
    by (simp add: walk_step_def Let_def relpath_def add_files_lines walk_init_def)
  then obtain ys where ys:
    "structure_lines (walk_step fnm pats dn walk_init ([], dirs_of es, files_of es))
       = (dn @ u ''/'' @ NL) # ys" ..
  from walk_foldl_lines [of fnm pats dn
      "walk_step fnm pats dn walk_init ([], dirs_of es, files_of es)" "walk_subdirs [] es"]
  obtain zs where
    "structure_lines (foldl (walk_step fnm pats dn)
        (walk_step fnm pats dn walk_init ([], dirs_of es, files_of es)) (walk_subdirs [] es)) =
     structure_lines (walk_step fnm pats dn walk_init ([], dirs_of es, files_of es)) @ zs" ..
  with ys show ?thesis by (simp add: walk_def)
qed

lemma basename_join:
  assumes "sep \<notin> set name"
  shows "basename (dir @ [sep] @ name) = name"
proof -
  have h: "\<And>x. x \<in> set (rev name) \<Longrightarrow> x \<noteq> sep" using assms by auto
  have "takeWhile (\<lambda>c. c \<noteq> sep) (rev name @ sep # rev dir) = rev name"
    using takeWhile_append2 [of "rev name" "\<lambda>c. c \<noteq> sep" "sep # rev dir", OF h] by simp
  then show ?thesis by (simp add: basename_def)
qed

lemma splitext_stem:
  assumes "\<exists>c \<in> set stem. c \<noteq> 46" and "46 \<notin> set ext"
  shows "splitext_root (stem @ [46] @ ext) = stem"
proof -
  have h: "\<And>x. x \<in> set (rev ext) \<Longrightarrow> x \<noteq> 46" using assms(2) by auto
  have "dropWhile (\<lambda>c. c \<noteq> 46) (rev ext @ 46 # rev stem) = 46 # rev stem"
    using dropWhile_append2 [of "rev ext" "\<lambda>c. c \<noteq> 46" "46 # rev stem", OF h] by simp
  with assms(1) show ?thesis by (simp add: splitext_root_def)
qed

lemma latin1_fallback_unreachable:
  "OpReadLatin1 \<in> set (io_ops (render_file kb st r)) \<Longrightarrow> OpReadLatin1 \<in> set (io_ops st)"
  using read_text_replace_no_decode_error [of "snd r"]
  by (cases r) (auto simp: render_file_def check_binary_def read_content_def emit_def did_def
      count_processed_def count_read_error_def count_binary_def count_size_def Let_def
      split: sum.splits py_exc.splits if_splits)

lemma u_codepoints: "u ''Az09[]'' = [65, 122, 48, 57, 91, 93]"
  by (simp add: u_def)

lemma begin_marker_text: "begin_marker h = u ''--- BEGIN FILE: '' @ h @ u '' ---'' @ [10]"
  by (simp add: begin_marker_def NL_def)

lemma end_marker_text: "end_marker h = [10] @ u ''--- END FILE: '' @ h @ u '' ---'' @ [10, 10]"
  by (simp add: end_marker_def NL_def)

lemma binary_notice_text: "binary_notice = u ''[Binary file - content skipped]'' @ [10]"
  by (simp add: binary_notice_def NL_def)

lemma getsize_text_of_size: "os_path_getsize (text_of_size n) = Inr n"
  by (simp add: os_path_getsize_def text_of_size_def)

lemma fmt_kb_samples:
  "fmt_kb 1280 = u ''1.2''" "fmt_kb 1792 = u ''1.8''" "fmt_kb 2048 = u ''2.0''"
  "fmt_kb 12289 = u ''12.0''"
  by (simp_all add: fmt_kb_def tenths_kb_def round53_def digits.simps u_def)

lemma bit_length_huge: "bit_length 1152921504606847028 = 61"
  by (simp add: bit_length.simps)

lemma fmt_kb_huge: "fmt_kb 1152921504606847028 = u ''1125899906842624.0''"
  by (simp add: fmt_kb_def tenths_kb_def round53_def bit_length_huge digits.simps u_def Let_def)

lemma str_int_12: "str_int 12 = u ''12''"
  by (simp add: str_int_def digits.simps u_def)

lemma fails_fault: "fails kb f \<Longrightarrow> \<exists>flt. fault f = Some flt"
  using utf8_replace_total [of "file_bytes f"]
  by (cases "fault f")
     (auto simp: fails_def os_path_getsize_def read_chunk_def read_text_utf8_def
        split: sum.splits if_splits)

lemma render_file_failure_text:
  assumes "fails kb f" and "fault f = Some flt"
  shows "output_lines (render_file kb st (h, f)) =
           output_lines st
           @ [u ''--- BEGIN FILE: '' @ h @ u '' ---'' @ [10],
              (case flt of
                 SizeFails m \<Rightarrow> u ''[Error checking file size: '' @ m @ u '']'' @ [10]
               | ProbeFails m \<Rightarrow> u ''[Error checking if file is binary: '' @ m @ u '']'' @ [10]
               | ProbeFailsOther m \<Rightarrow>
                   u ''[Unexpected error checking if file is binary: '' @ m @ u '']'' @ [10]
               | ReadFails m \<Rightarrow> u ''[Error reading file: '' @ m @ u '']'' @ [10]
               | ReadFailsOther m \<Rightarrow> u ''[Unexpected error reading file: '' @ m @ u '']'' @ [10]),
              [10] @ u ''--- END FILE: '' @ h @ u '' ---'' @ [10, 10]]"
proof (cases flt)
  case (SizeFails m)
  with assms show ?thesis
    by (simp add: render_file_def os_path_getsize_def emit_def did_def count_processed_def
        count_read_error_def error_notice_def begin_marker_text end_marker_text NL_def u_def)
next
  case (ProbeFails m)
  with assms show ?thesis
    by (simp add: fails_def render_file_def check_binary_def os_path_getsize_def read_chunk_def
        emit_def did_def count_processed_def count_read_error_def error_notice_def
        begin_marker_text end_marker_text NL_def u_def)
next
  case (ProbeFailsOther m)
  with assms show ?thesis
    by (simp add: fails_def render_file_def check_binary_def os_path_getsize_def read_chunk_def
        emit_def did_def count_processed_def count_read_error_def error_notice_def
        begin_marker_text end_marker_text NL_def u_def)
next
  case (ReadFails m)
  with assms show ?thesis
    by (simp add: fails_def render_file_def check_binary_def read_content_def os_path_getsize_def
        read_chunk_def read_text_utf8_def emit_def did_def count_processed_def
        count_read_error_def error_notice_def begin_marker_text end_marker_text NL_def u_def)
next
  case (ReadFailsOther m)
  with assms show ?thesis
    by (simp add: fails_def render_file_def check_binary_def read_content_def os_path_getsize_def
        read_chunk_def read_text_utf8_def emit_def did_def count_processed_def
        count_read_error_def error_notice_def begin_marker_text end_marker_text NL_def u_def)
qed

lemma exceeds_Some: "exceeds kb n \<Longrightarrow> \<exists>k. kb = Some k"
  by (cases kb) (simp_all add: exceeds_def max_size_bytes_def)

lemma block_text:
  "\<exists>x. block kb (h, f) =
          [u ''--- BEGIN FILE: '' @ h @ u '' ---'' @ [10], x,
           [10] @ u ''--- END FILE: '' @ h @ u '' ---'' @ [10, 10]]
      \<and> ((\<exists>k. kb = Some k
             \<and> x = u ''[File content skipped - size ('' @ fmt_kb (length (file_bytes f))
                     @ u '' KB) exceeds limit ('' @ str_int k @ u '' KB)]'' @ [10])
         \<or> x = u ''[Binary file - content skipped]'' @ [10]
         \<or> (\<exists>m. x = u ''[Error checking file size: '' @ m @ u '']'' @ [10]
               \<or> x = u ''[Error checking if file is binary: '' @ m @ u '']'' @ [10]
               \<or> x = u ''[Unexpected error checking if file is binary: '' @ m @ u '']'' @ [10]
               \<or> x = u ''[Error reading file: '' @ m @ u '']'' @ [10]
               \<or> x = u ''[Unexpected error reading file: '' @ m @ u '']'' @ [10])
         \<or> (\<exists>cs. utf8_decode Replace (file_bytes f) = Inr cs \<and> x = translate_newlines cs))"
proof (cases "fails kb f")
  case True
  from fails_fault [OF True] obtain flt where flt: "fault f = Some flt" ..
  from render_file_failure_text [OF True flt, of "render_init []" h]
  have b: "block kb (h, f) =
           [u ''--- BEGIN FILE: '' @ h @ u '' ---'' @ [10],
              (case flt of
                 SizeFails m \<Rightarrow> u ''[Error checking file size: '' @ m @ u '']'' @ [10]
               | ProbeFails m \<Rightarrow> u ''[Error checking if file is binary: '' @ m @ u '']'' @ [10]
               | ProbeFailsOther m \<Rightarrow>
                   u ''[Unexpected error checking if file is binary: '' @ m @ u '']'' @ [10]
               | ReadFails m \<Rightarrow> u ''[Error reading file: '' @ m @ u '']'' @ [10]
               | ReadFailsOther m \<Rightarrow> u ''[Unexpected error reading file: '' @ m @ u '']'' @ [10]),
              [10] @ u ''--- END FILE: '' @ h @ u '' ---'' @ [10, 10]]"
    by (simp add: block_def render_init_def)
  show ?thesis
    by (cases flt) (simp_all only: b io_fault.case, blast+)
next
  case False
  then obtain n where n: "os_path_getsize f = Inr n"
    by (cases "os_path_getsize f") (simp_all add: fails_def)
  then have len: "n = length (file_bytes f)"
    by (simp add: os_path_getsize_def split: option.splits io_fault.splits)
  show ?thesis
  proof (cases "exceeds kb n")
    case True
    from exceeds_Some [OF True] obtain k where k: "kb = Some k" ..
    from render_oversized_file [OF n True, of "render_init []" h] k len
    have "block kb (h, f) =
          [u ''--- BEGIN FILE: '' @ h @ u '' ---'' @ [10],
           u ''[File content skipped - size ('' @ fmt_kb (length (file_bytes f))
                     @ u '' KB) exceeds limit ('' @ str_int k @ u '' KB)]'' @ [10],
           [10] @ u ''--- END FILE: '' @ h @ u '' ---'' @ [10, 10]]"
      by (simp add: block_def render_init_def size_notice_def begin_marker_text end_marker_text
          NL_def)
    with k show ?thesis by blast
  next
    case ne: False
    with False n obtain chunk where chunk: "read_chunk f 1024 = Inr chunk"
      by (cases "read_chunk f 1024") (simp_all add: fails_def)
    show ?thesis
    proof (cases "0 \<in> set chunk")
      case True
      with n ne chunk have "block kb (h, f) =
          [u ''--- BEGIN FILE: '' @ h @ u '' ---'' @ [10],
           u ''[Binary file - content skipped]'' @ [10],
           [10] @ u ''--- END FILE: '' @ h @ u '' ---'' @ [10, 10]]"
        by (simp add: block_def render_init_def render_file_def check_binary_def emit_def did_def
            count_processed_def count_binary_def begin_marker_text end_marker_text
            binary_notice_text)
      then show ?thesis by blast
    next
      case nz: False
      with False n ne chunk obtain t where t: "read_text_utf8 Replace f = Inr t"
        by (cases "read_text_utf8 Replace f") (simp_all add: fails_def)
      then obtain cs where cs: "utf8_decode Replace (file_bytes f) = Inr cs"
        and tcs: "t = translate_newlines cs"
        by (auto simp: read_text_utf8_def split: option.splits io_fault.splits sum.splits)
      from n ne chunk nz t tcs have "block kb (h, f) =
          [u ''--- BEGIN FILE: '' @ h @ u '' ---'' @ [10],
           translate_newlines cs,
           [10] @ u ''--- END FILE: '' @ h @ u '' ---'' @ [10, 10]]"
        by (simp add: block_def render_init_def render_file_def check_binary_def read_content_def
            emit_def did_def count_processed_def begin_marker_text end_marker_text)
      with cs show ?thesis by blast
    qed
  qed
qed

lemma big_file_size: "os_path_getsize big_file = Inr 2048"
  by (simp add: os_path_getsize_def big_file_def)

lemma sample_render:
  "render_all (Some 1) st
     [(u ''a.txt'', sample_text), (u ''big.txt'', big_file), (u ''bin.dat'', sample_binary),
      (u ''key.pem'', locked_file)] =
   st\<lparr>output_lines := output_lines st
          @ [u ''--- BEGIN FILE: a.txt ---'' @ [10],
             [104, 101, 108, 108, 111],
             [10] @ u ''--- END FILE: a.txt ---'' @ [10, 10],
             u ''--- BEGIN FILE: big.txt ---'' @ [10],
             u ''[File content skipped - size (2.0 KB) exceeds limit (1 KB)]'' @ [10],
             [10] @ u ''--- END FILE: big.txt ---'' @ [10, 10],
             u ''--- BEGIN FILE: bin.dat ---'' @ [10],
             u ''[Binary file - content skipped]'' @ [10],
             [10] @ u ''--- END FILE: bin.dat ---'' @ [10, 10],
             u ''--- BEGIN FILE: key.pem ---'' @ [10],
             u ''[Error checking if file is binary: [Errno 13] Permission denied]'' @ [10],
             [10] @ u ''--- END FILE: key.pem ---'' @ [10, 10]],
      processed_files := processed_files st + 4,
      skipped_binary := skipped_binary st + 1,
      skipped_size := skipped_size st + 1,
      read_errors := read_errors st + 1,
      io_ops := io_ops st @ [OpGetsize, OpReadBinary, OpReadUtf8, OpGetsize, OpGetsize,
                              OpReadBinary, OpGetsize, OpReadBinary]\<rparr>"
proof -
  have ne: "\<not> exceeds (Some 1) (length (file_bytes sample_text))"
    "\<not> exceeds (Some 1) (length (file_bytes sample_binary))"
    by (simp_all add: sample_text_def sample_binary_def exceeds_def max_size_bytes_def)
  have r1: "render_file (Some 1) s (h, sample_text) =
     s\<lparr>output_lines := output_lines s
          @ [begin_marker h, [104, 101, 108, 108, 111], end_marker h],
        processed_files := processed_files s + 1,
        io_ops := io_ops s @ [OpGetsize, OpReadBinary, OpReadUtf8]\<rparr>" for s h
    using render_text_file [of sample_text "Some 1" "[104, 101, 108, 108, 111]" s h] ne
    by (simp add: sample_text_def utf8_step_def)
  have r2: "render_file (Some 1) s (h, big_file) =
     s\<lparr>output_lines := output_lines s @ [begin_marker h, size_notice 2048 1, end_marker h],
        processed_files := processed_files s + 1,
        skipped_size := skipped_size s + 1,
        io_ops := io_ops s @ [OpGetsize]\<rparr>" for s h
    using render_oversized_file [OF big_file_size, of "Some 1" s h]
    by (simp add: exceeds_def max_size_bytes_def)
  have r3: "render_file (Some 1) s (h, sample_binary) =
     s\<lparr>output_lines := output_lines s @ [begin_marker h, binary_notice, end_marker h],
        processed_files := processed_files s + 1,
        skipped_binary := skipped_binary s + 1,
        io_ops := io_ops s @ [OpGetsize, OpReadBinary]\<rparr>" for s h
    using render_binary_file [of sample_binary "Some 1" s h] ne
    by (simp add: sample_binary_def)
  have r4: "render_file (Some 1) s (h, locked_file) =
     s\<lparr>output_lines := output_lines s
          @ [begin_marker h,
             u ''[Error checking if file is binary: [Errno 13] Permission denied]'' @ [10],
             end_marker h],
        processed_files := processed_files s + 1,
        read_errors := read_errors s + 1,
        io_ops := io_ops s @ [OpGetsize, OpReadBinary]\<rparr>" for s h
    by (simp add: render_file_def check_binary_def os_path_getsize_def read_chunk_def
        locked_file_def exceeds_def max_size_bytes_def emit_def did_def count_processed_def
        count_read_error_def error_notice_def NL_def u_def)
  have texts: "size_notice 2048 1 =
      u ''[File content skipped - size (2.0 KB) exceeds limit (1 KB)]'' @ [10]"
    by (simp add: size_notice_def fmt_kb_samples str_int_1 NL_def u_def)
  show ?thesis
    by (simp add: render_all_def r1 r2 r3 r4 texts begin_marker_text end_marker_text
        binary_notice_text u_def)
qed

section \<open>The claims\<close>

text \<open>
  C1 fails on the code. The claim: a directory that matches a pattern, and everything
  below it, is absent from the structure listing and from the content section, and the
  excluded counters grow by the size of the pruned subtree, counted once. The walk is a
  finished list when the loop starts, so emptying \<open>dirs\<close> prunes nothing: with the
  pattern \<open>node_modules\<close> and the tree \<open>node_modules/lib/x.js\<close>, the directory \<open>lib\<close>
  and its file are listed, the file is queued for rendering, and the excluded-directory
  counter is 3 for a subtree of two directories (the matching directory is counted by
  its parent and again by itself), the excluded-file counter 0 for its one file.
\<close>

theorem C1_excluded_directory_not_pruned:
  "walk glob [u ''node_modules''] (u ''proj'')
     [Dir (u ''node_modules'') [Dir (u ''lib'') [File (u ''x.js'') sample_text]]] =
   \<lparr>structure_lines =
      [u ''proj/'' @ NL, u ''    |-- lib/'' @ NL, u ''      |-- x.js'' @ NL],
    files_to_process = [(u ''node_modules/lib/x.js'', sample_text)],
    total_dirs = 2, total_files = 1, excluded_dirs_count = 3, excluded_files_count = 0\<rparr>"
  by (simp add: walk_def walk_step_def walk_init_def add_file_def relpath_def is_excluded_def
      glob_def path_join_def startswith_def endswith_def rep_def u_def NL_def sep_def Let_def)

text \<open>
  C2 fails on the code for directories. The claim: the child directories and files that
  remain at a directory are emitted in lexicographic order, whatever order the file
  system lists them in. Files are sorted; \<open>dirs.sort()\<close> sorts a list the finished walk
  no longer reads, so directories come out in listing order: the same two directories
  listed as \<open>b, a\<close> and as \<open>a, b\<close> give two different structure listings, the first one
  unsorted.
\<close>

theorem C2_directories_in_listing_order:
  "structure_lines (walk glob [] (u ''proj'')
       [Dir (u ''b'') [File (u ''m.txt'') sample_text], Dir (u ''a'') []]) =
     [u ''proj/'' @ NL, u ''  |-- b/'' @ NL, u ''    |-- m.txt'' @ NL, u ''  |-- a/'' @ NL]
   \<and> structure_lines (walk glob [] (u ''proj'')
       [Dir (u ''a'') [], Dir (u ''b'') [File (u ''m.txt'') sample_text]]) =
     [u ''proj/'' @ NL, u ''  |-- a/'' @ NL, u ''  |-- b/'' @ NL, u ''    |-- m.txt'' @ NL]"
  by (simp add: walk_def walk_step_def walk_init_def add_file_def relpath_def is_excluded_def
      glob_def path_join_def startswith_def endswith_def rep_def u_def NL_def sep_def Let_def)

text \<open>
  C3 fails on the code. The claim: the bytes are first decoded as strict UTF-8 and, only
  if that fails, decoded as Latin-1 with a warning, so that no byte is replaced. The
  read passes \<open>errors='replace'\<close>, so it never raises \<open>UnicodeDecodeError\<close> and the
  Latin-1 handler is never entered: for the four bytes \<open>63 61 66 E9\<close> (\<open>caf\<close> and an
  e with an acute accent in Latin-1), which strict UTF-8 rejects and Latin-1 reads as
  four characters, the block holds \<open>caf\<close> followed by U+FFFD, without a warning and
  without a second read.
\<close>

theorem C3_invalid_utf8_replaced_not_latin1:
  "utf8_decode Strict (file_bytes invalid_utf8_file) = Inl UnicodeDecodeError
   \<and> read_text_latin1 invalid_utf8_file = Inr [99, 97, 102, 233]
   \<and> render_file None (render_init []) (u ''menu.txt'', invalid_utf8_file) =
       \<lparr>output_lines = [begin_marker (u ''menu.txt''), [99, 97, 102, 0xFFFD],
                         end_marker (u ''menu.txt'')],
        processed_files = 1, skipped_binary = 0, skipped_size = 0, read_errors = 0,
        io_ops = [OpGetsize, OpReadBinary, OpReadUtf8]\<rparr>"
  by (simp add: invalid_utf8_file_def utf8_step_def step3_def read_text_latin1_def
      read_text_utf8_def render_file_def check_binary_def read_content_def os_path_getsize_def
      read_chunk_def exceeds_def max_size_bytes_def emit_def did_def count_processed_def
      render_init_def Let_def)

text \<open>
  C4 (as amended). A readable file with no null byte among its first 1024 bytes, whose
  bytes are valid UTF-8 and whose size is within the limit, appears between its
  \<open>--- BEGIN FILE: <relpath> ---\<close> and \<open>--- END FILE: <relpath> ---\<close> markers as its
  decoded text with every \<open>\r\n\<close> and every lone \<open>\r\<close> turned into \<open>\n\<close>; it appears
  verbatim when the decoded text has no \<open>\r\<close>.
\<close>

theorem C4_roundtrip_up_to_newlines:
  assumes "fault f = None"
    and "0 \<notin> set (take 1024 (file_bytes f))"
    and "utf8_decode Strict (file_bytes f) = Inr s"
    and "\<not> exceeds kb (length (file_bytes f))"
  shows "output_lines (render_file kb st (h, f)) =
           output_lines st @ [begin_marker h, translate_newlines s, end_marker h]
       \<and> (13 \<notin> set s \<longrightarrow>
            output_lines (render_file kb st (h, f)) =
              output_lines st @ [begin_marker h, s, end_marker h])"
proof -
  have "utf8_decode Replace (file_bytes f) = Inr s"
    by (rule utf8_strict_replace [OF assms(3)])
  from render_text_file [OF assms(1) assms(4) assms(2) this, of st h]
  show ?thesis by (simp add: translate_newlines_id)
qed

text \<open>
  C4 as stated fails for a file with a carriage return: the four bytes \<open>a \r \n b\<close> are
  valid UTF-8 without a null byte, and the block holds \<open>a \n b\<close>.
\<close>

theorem C4_crlf_counterexample:
  "fault crlf_file = None
   \<and> 0 \<notin> set (take 1024 (file_bytes crlf_file))
   \<and> utf8_decode Strict (file_bytes crlf_file) = Inr [97, 13, 10, 98]
   \<and> \<not> exceeds None (length (file_bytes crlf_file))
   \<and> output_lines (render_file None (render_init []) (u ''a.txt'', crlf_file)) =
       [begin_marker (u ''a.txt''), [97, 10, 98], end_marker (u ''a.txt'')]
   \<and> output_lines (render_file None (render_init []) (u ''a.txt'', crlf_file)) \<noteq>
       [begin_marker (u ''a.txt''), [97, 13, 10, 98], end_marker (u ''a.txt'')]"
  by (simp add: crlf_file_def utf8_step_def exceeds_def max_size_bytes_def render_file_def
      check_binary_def read_content_def os_path_getsize_def read_chunk_def read_text_utf8_def
      emit_def did_def count_processed_def render_init_def)

text \<open>C4 on the file \<open>hello\<close>.\<close>

theorem C4_roundtrip_witness:
  "output_lines (render_file (Some 1) (render_init []) (u ''a.txt'', sample_text)) =
     [begin_marker (u ''a.txt''), u ''hello'', end_marker (u ''a.txt'')]"
proof -
  have t1: "fault sample_text = None" by (simp add: sample_text_def)
  have t2: "0 \<notin> set (take 1024 (file_bytes sample_text))" by (simp add: sample_text_def)
  have t3: "utf8_decode Strict (file_bytes sample_text) = Inr (u ''hello'')"
    by (simp add: sample_text_def utf8_step_def u_def)
  have t4: "\<not> exceeds (Some 1) (length (file_bytes sample_text))"
    by (simp add: sample_text_def exceeds_def max_size_bytes_def)
  have t5: "13 \<notin> set (u ''hello'')" by (simp add: u_def)
  from C4_roundtrip_up_to_newlines [OF t1 t2 t3 t4, of "render_init []" "u ''a.txt''"] t5
  show ?thesis by (simp add: render_init_def translate_newlines_id)
qed

text \<open>
  C5. For a readable file whose size does not exceed the limit: if one of its first
  \<open>min(1024, size)\<close> bytes is null, its block is its begin marker, the line
  \<open>[Binary file - content skipped]\<close> and its end marker, the binary counter goes up by
  one, and the text is never read; otherwise the binary counter is unchanged and the
  block holds the text.
\<close>

theorem C5_binary_detection:
  assumes "fault f = None" and "\<not> exceeds kb (length (file_bytes f))"
  shows "((\<exists>i < min 1024 (length (file_bytes f)). file_bytes f ! i = 0) \<longrightarrow>
            render_file kb st (h, f) =
              st\<lparr>output_lines := output_lines st
                     @ [u ''--- BEGIN FILE: '' @ h @ u '' ---'' @ [10],
                        u ''[Binary file - content skipped]'' @ [10],
                        [10] @ u ''--- END FILE: '' @ h @ u '' ---'' @ [10, 10]],
                 processed_files := processed_files st + 1,
                 skipped_binary := skipped_binary st + 1,
                 io_ops := io_ops st @ [OpGetsize, OpReadBinary]\<rparr>)
       \<and> (\<not> (\<exists>i < min 1024 (length (file_bytes f)). file_bytes f ! i = 0) \<longrightarrow>
            (\<exists>cs. utf8_decode Replace (file_bytes f) = Inr cs
               \<and> render_file kb st (h, f) =
                   st\<lparr>output_lines := output_lines st
                          @ [u ''--- BEGIN FILE: '' @ h @ u '' ---'' @ [10],
                             translate_newlines cs,
                             [10] @ u ''--- END FILE: '' @ h @ u '' ---'' @ [10, 10]],
                      processed_files := processed_files st + 1,
                      io_ops := io_ops st @ [OpGetsize, OpReadBinary, OpReadUtf8]\<rparr>))"
proof (intro conjI impI)
  assume "\<exists>i < min 1024 (length (file_bytes f)). file_bytes f ! i = 0"
  with probe_null_iff [of "file_bytes f"] have "0 \<in> set (take 1024 (file_bytes f))"
    by blast
  from render_binary_file [OF assms this, of st h]
  show "render_file kb st (h, f) =
              st\<lparr>output_lines := output_lines st
                     @ [u ''--- BEGIN FILE: '' @ h @ u '' ---'' @ [10],
                        u ''[Binary file - content skipped]'' @ [10],
                        [10] @ u ''--- END FILE: '' @ h @ u '' ---'' @ [10, 10]],
                 processed_files := processed_files st + 1,
                 skipped_binary := skipped_binary st + 1,
                 io_ops := io_ops st @ [OpGetsize, OpReadBinary]\<rparr>"
    by (simp only: begin_marker_text end_marker_text binary_notice_text)
next
  assume "\<not> (\<exists>i < min 1024 (length (file_bytes f)). file_bytes f ! i = 0)"
  with probe_null_iff [of "file_bytes f"] have no: "0 \<notin> set (take 1024 (file_bytes f))"
    by blast
  obtain cs where cs: "utf8_decode Replace (file_bytes f) = Inr cs"
    using utf8_replace_total by blast
  from render_text_file [OF assms no cs, of st h]
  have "render_file kb st (h, f) =
                   st\<lparr>output_lines := output_lines st
                          @ [u ''--- BEGIN FILE: '' @ h @ u '' ---'' @ [10],
                             translate_newlines cs,
                             [10] @ u ''--- END FILE: '' @ h @ u '' ---'' @ [10, 10]],
                      processed_files := processed_files st + 1,
                      io_ops := io_ops st @ [OpGetsize, OpReadBinary, OpReadUtf8]\<rparr>"
    by (simp only: begin_marker_text end_marker_text)
  with cs show "\<exists>cs. utf8_decode Replace (file_bytes f) = Inr cs
               \<and> render_file kb st (h, f) =
                   st\<lparr>output_lines := output_lines st
                          @ [u ''--- BEGIN FILE: '' @ h @ u '' ---'' @ [10],
                             translate_newlines cs,
                             [10] @ u ''--- END FILE: '' @ h @ u '' ---'' @ [10, 10]],
                      processed_files := processed_files st + 1,
                      io_ops := io_ops st @ [OpGetsize, OpReadBinary, OpReadUtf8]\<rparr>"
    by blast
qed

text \<open>
  C5 on a file with a null byte and on a text file.
\<close>

theorem C5_binary_detection_witness:
  "render_file (Some 1) (render_init []) (u ''bin.dat'', sample_binary) =
     \<lparr>output_lines =
        [u ''--- BEGIN FILE: bin.dat ---'' @ [10],
         u ''[Binary file - content skipped]'' @ [10],
         [10] @ u ''--- END FILE: bin.dat ---'' @ [10, 10]],
      processed_files = 1, skipped_binary = 1, skipped_size = 0, read_errors = 0,
      io_ops = [OpGetsize, OpReadBinary]\<rparr>
   \<and> render_file (Some 1) (render_init []) (u ''a.txt'', sample_text) =
     \<lparr>output_lines =
        [u ''--- BEGIN FILE: a.txt ---'' @ [10],
         [104, 101, 108, 108, 111],
         [10] @ u ''--- END FILE: a.txt ---'' @ [10, 10]],
      processed_files = 1, skipped_binary = 0, skipped_size = 0, read_errors = 0,
      io_ops = [OpGetsize, OpReadBinary, OpReadUtf8]\<rparr>"
proof -
  have b1: "fault sample_binary = None" by (simp add: sample_binary_def)
  have b2: "\<not> exceeds (Some 1) (length (file_bytes sample_binary))"
    by (simp add: sample_binary_def exceeds_def max_size_bytes_def)
  have b3: "\<exists>i < min 1024 (length (file_bytes sample_binary)). file_bytes sample_binary ! i = 0"
    by (rule exI [of _ 0]) (simp add: sample_binary_def)
  have t1: "fault sample_text = None" by (simp add: sample_text_def)
  have t2: "\<not> exceeds (Some 1) (length (file_bytes sample_text))"
    by (simp add: sample_text_def exceeds_def max_size_bytes_def)
  have t3: "\<not> (\<exists>i < min 1024 (length (file_bytes sample_text)). file_bytes sample_text ! i = 0)"
    unfolding probe_null_iff by (simp add: sample_text_def)
  have t4: "utf8_decode Replace (file_bytes sample_text) = Inr [104, 101, 108, 108, 111]"
    by (simp add: sample_text_def utf8_step_def)
  have t5: "translate_newlines [104, 101, 108, 108, 111] = [104, 101, 108, 108, 111]"
    by simp
  from C5_binary_detection [OF b1 b2, of "render_init []" "u ''bin.dat''"] b3
  have first: "render_file (Some 1) (render_init []) (u ''bin.dat'', sample_binary) =
     \<lparr>output_lines =
        [u ''--- BEGIN FILE: bin.dat ---'' @ [10],
         u ''[Binary file - content skipped]'' @ [10],
         [10] @ u ''--- END FILE: bin.dat ---'' @ [10, 10]],
      processed_files = 1, skipped_binary = 1, skipped_size = 0, read_errors = 0,
      io_ops = [OpGetsize, OpReadBinary]\<rparr>"
    by (simp add: render_init_def u_def)
  from C5_binary_detection [OF t1 t2, of "render_init []" "u ''a.txt''"] t3
  obtain cs where "utf8_decode Replace (file_bytes sample_text) = Inr cs"
    and "render_file (Some 1) (render_init []) (u ''a.txt'', sample_text) =
           (render_init [])\<lparr>output_lines := output_lines (render_init [])
                          @ [u ''--- BEGIN FILE: '' @ u ''a.txt'' @ u '' ---'' @ [10],
                             translate_newlines cs,
                             [10] @ u ''--- END FILE: '' @ u ''a.txt'' @ u '' ---'' @ [10, 10]],
                      processed_files := processed_files (render_init []) + 1,
                      io_ops := io_ops (render_init []) @ [OpGetsize, OpReadBinary, OpReadUtf8]\<rparr>"
    by blast
  with t4 t5
  have second: "render_file (Some 1) (render_init []) (u ''a.txt'', sample_text) =
     \<lparr>output_lines =
        [u ''--- BEGIN FILE: a.txt ---'' @ [10],
         [104, 101, 108, 108, 111],
         [10] @ u ''--- END FILE: a.txt ---'' @ [10, 10]],
      processed_files = 1, skipped_binary = 0, skipped_size = 0, read_errors = 0,
      io_ops = [OpGetsize, OpReadBinary, OpReadUtf8]\<rparr>"
    by (simp add: render_init_def u_def)
  from first second show ?thesis by (rule conjI)
qed

text \<open>
  C6 (as amended). With a limit of \<open>K > 0\<close> kilobytes and a file whose size \<open>n\<close> can be
  determined: when \<open>n = K * 1024\<close> the file is not skipped for its size, it is rendered
  exactly as without a limit and the oversized counter is unchanged, so its content is in
  the block when it is readable and has no null byte among its first 1024 bytes; when
  \<open>n \<ge> K * 1024 + 1\<close> (a size below \<open>2 ^ 63\<close>) the block is the notice
  \<open>[File content skipped - size (<n / 1024 to one decimal> KB) exceeds limit (<K> KB)]\<close>, the
  oversized counter grows by one, and the only file-system call for the file is the
  size check.
\<close>

theorem C6_size_boundary:
  assumes "0 < K" and "os_path_getsize f = Inr n"
  shows "(int n = K * 1024 \<longrightarrow>
            render_file (Some K) st (h, f) = render_file None st (h, f)
            \<and> skipped_size (render_file (Some K) st (h, f)) = skipped_size st
            \<and> (fault f = None \<and> 0 \<notin> set (take 1024 (file_bytes f)) \<longrightarrow>
                 (\<exists>cs. utf8_decode Replace (file_bytes f) = Inr cs
                    \<and> output_lines (render_file (Some K) st (h, f)) =
                        output_lines st
                        @ [u ''--- BEGIN FILE: '' @ h @ u '' ---'' @ [10],
                           translate_newlines cs,
                           [10] @ u ''--- END FILE: '' @ h @ u '' ---'' @ [10, 10]])))
       \<and> (int n \<ge> K * 1024 + 1 \<and> n < 2 ^ 63 \<longrightarrow>
            render_file (Some K) st (h, f) =
              st\<lparr>output_lines := output_lines st
                     @ [u ''--- BEGIN FILE: '' @ h @ u '' ---'' @ [10],
                        u ''[File content skipped - size ('' @ fmt_kb n @ u '' KB) exceeds limit (''
                          @ str_int K @ u '' KB)]'' @ [10],
                        [10] @ u ''--- END FILE: '' @ h @ u '' ---'' @ [10, 10]],
                 processed_files := processed_files st + 1,
                 skipped_size := skipped_size st + 1,
                 io_ops := io_ops st @ [OpGetsize]\<rparr>)"
proof (intro conjI impI)
  assume eq: "int n = K * 1024"
  with assms(1) have ne: "\<not> exceeds (Some K) n"
    by (simp add: exceeds_def max_size_bytes_def)
  show "render_file (Some K) st (h, f) = render_file None st (h, f)"
    by (rule render_file_no_limit [OF assms(2) ne])
  have "skipped_size (render_file None st (h, f)) = skipped_size st"
    by (simp add: render_file_skipped_size exceeds_def max_size_bytes_def assms(2))
  then show "skipped_size (render_file (Some K) st (h, f)) = skipped_size st"
    by (simp add: render_file_no_limit [OF assms(2) ne])
  assume readable: "fault f = None \<and> 0 \<notin> set (take 1024 (file_bytes f))"
  then have len: "n = length (file_bytes f)"
    using assms(2) by (simp add: os_path_getsize_def)
  obtain cs where cs: "utf8_decode Replace (file_bytes f) = Inr cs"
    using utf8_replace_total by blast
  from readable ne len have
    "render_file (Some K) st (h, f) =
       st\<lparr>output_lines := output_lines st @ [begin_marker h, translate_newlines cs, end_marker h],
          processed_files := processed_files st + 1,
          io_ops := io_ops st @ [OpGetsize, OpReadBinary, OpReadUtf8]\<rparr>"
    by (intro render_text_file cs) simp_all
  then have "output_lines (render_file (Some K) st (h, f)) =
                        output_lines st
                        @ [u ''--- BEGIN FILE: '' @ h @ u '' ---'' @ [10],
                           translate_newlines cs,
                           [10] @ u ''--- END FILE: '' @ h @ u '' ---'' @ [10, 10]]"
    by (simp add: begin_marker_text end_marker_text)
  with cs show "\<exists>cs. utf8_decode Replace (file_bytes f) = Inr cs
                    \<and> output_lines (render_file (Some K) st (h, f)) =
                        output_lines st
                        @ [u ''--- BEGIN FILE: '' @ h @ u '' ---'' @ [10],
                           translate_newlines cs,
                           [10] @ u ''--- END FILE: '' @ h @ u '' ---'' @ [10, 10]]"
    by blast
next
  assume "K * 1024 + 1 \<le> int n \<and> n < 2 ^ 63"
  with assms(1) have "exceeds (Some K) n"
    by (simp add: exceeds_def max_size_bytes_def)
  from render_oversized_file [OF assms(2) this, of st h]
  show "render_file (Some K) st (h, f) =
              st\<lparr>output_lines := output_lines st
                     @ [u ''--- BEGIN FILE: '' @ h @ u '' ---'' @ [10],
                        u ''[File content skipped - size ('' @ fmt_kb n @ u '' KB) exceeds limit (''
                          @ str_int K @ u '' KB)]'' @ [10],
                        [10] @ u ''--- END FILE: '' @ h @ u '' ---'' @ [10, 10]],
                 processed_files := processed_files st + 1,
                 skipped_size := skipped_size st + 1,
                 io_ops := io_ops st @ [OpGetsize]\<rparr>"
    by (simp add: size_notice_def begin_marker_text end_marker_text NL_def)
qed

text \<open>
  C6 as stated fails for a file of exactly \<open>K * 1024\<close> bytes that is binary: with a limit
  of 1 KB, a file of 1024 null bytes gets the binary notice and its content is not read.
\<close>

theorem C6_binary_at_limit_counterexample:
  "os_path_getsize null_block_file = Inr 1024
   \<and> int 1024 = 1 * 1024
   \<and> render_file (Some 1) (render_init []) (u ''blob.bin'', null_block_file) =
       \<lparr>output_lines =
          [u ''--- BEGIN FILE: blob.bin ---'' @ [10],
           u ''[Binary file - content skipped]'' @ [10],
           [10] @ u ''--- END FILE: blob.bin ---'' @ [10, 10]],
        processed_files = 1, skipped_binary = 1, skipped_size = 0, read_errors = 0,
        io_ops = [OpGetsize, OpReadBinary]\<rparr>"
proof -
  have a: "fault null_block_file = None" by (simp add: null_block_file_def)
  have b: "\<not> exceeds (Some 1) (length (file_bytes null_block_file))"
    by (simp add: null_block_file_def exceeds_def max_size_bytes_def)
  have c: "0 \<in> set (take 1024 (file_bytes null_block_file))"
    by (simp add: null_block_file_def)
  have d: "os_path_getsize null_block_file = Inr 1024"
    by (simp add: os_path_getsize_def null_block_file_def)
  from render_binary_file [OF a b c, of "render_init []" "u ''blob.bin''"] d
  show ?thesis
    by (simp add: render_init_def begin_marker_text end_marker_text binary_notice_text u_def)
qed

text \<open>
  C6 at the limit of 1 KB: a text file of 1024 bytes; files of 1025, 1280, 1792 and 2048
  bytes, whose sizes print as 1.0, 1.2, 1.8 and 2.0; with a limit of 12 KB a file of
  12289 bytes; and a size above \<open>2 ^ 53\<close>, where the division rounds first.
\<close>

theorem C6_size_boundary_witness:
  "output_lines (render_file (Some 1) (render_init []) (u ''big.txt'', text_of_size 1024)) =
     [u ''--- BEGIN FILE: big.txt ---'' @ [10], replicate 1024 97,
      [10] @ u ''--- END FILE: big.txt ---'' @ [10, 10]]
   \<and> output_lines (render_file (Some 1) (render_init []) (u ''big.txt'', text_of_size 1025)) =
     [u ''--- BEGIN FILE: big.txt ---'' @ [10],
      u ''[File content skipped - size (1.0 KB) exceeds limit (1 KB)]'' @ [10],
      [10] @ u ''--- END FILE: big.txt ---'' @ [10, 10]]
   \<and> io_ops (render_file (Some 1) (render_init []) (u ''big.txt'', text_of_size 1025)) = [OpGetsize]
   \<and> skipped_size (render_file (Some 1) (render_init []) (u ''big.txt'', text_of_size 1025)) = 1
   \<and> output_lines (render_file (Some 1) (render_init []) (u ''big.txt'', text_of_size 1280)) =
     [u ''--- BEGIN FILE: big.txt ---'' @ [10],
      u ''[File content skipped - size (1.2 KB) exceeds limit (1 KB)]'' @ [10],
      [10] @ u ''--- END FILE: big.txt ---'' @ [10, 10]]
   \<and> output_lines (render_file (Some 1) (render_init []) (u ''big.txt'', text_of_size 1792)) =
     [u ''--- BEGIN FILE: big.txt ---'' @ [10],
      u ''[File content skipped - size (1.8 KB) exceeds limit (1 KB)]'' @ [10],
      [10] @ u ''--- END FILE: big.txt ---'' @ [10, 10]]
   \<and> output_lines (render_file (Some 1) (render_init []) (u ''big.txt'', text_of_size 2048)) =
     [u ''--- BEGIN FILE: big.txt ---'' @ [10],
      u ''[File content skipped - size (2.0 KB) exceeds limit (1 KB)]'' @ [10],
      [10] @ u ''--- END FILE: big.txt ---'' @ [10, 10]]
   \<and> output_lines (render_file (Some 12) (render_init []) (u ''big.txt'', text_of_size 12289)) =
     [u ''--- BEGIN FILE: big.txt ---'' @ [10],
      u ''[File content skipped - size (12.0 KB) exceeds limit (12 KB)]'' @ [10],
      [10] @ u ''--- END FILE: big.txt ---'' @ [10, 10]]
   \<and> output_lines (render_file (Some 1) (render_init [])
         (u ''big.txt'', text_of_size 1152921504606847028)) =
     [u ''--- BEGIN FILE: big.txt ---'' @ [10],
      u ''[File content skipped - size (1125899906842624.0 KB) exceeds limit (1 KB)]'' @ [10],
      [10] @ u ''--- END FILE: big.txt ---'' @ [10, 10]]"
proof -
  have k: "(0::int) < 1" by simp
  have k12: "(0::int) < 12" by simp
  note g = getsize_text_of_size
  have a3: "fault (text_of_size 1024) = None
              \<and> 0 \<notin> set (take 1024 (file_bytes (text_of_size 1024)))"
    by (simp add: text_of_size_def)
  have a4: "utf8_decode Replace (file_bytes (text_of_size 1024)) = Inr (replicate 1024 97)"
    unfolding text_of_size_def by (simp only: fdata.simps utf8_decode_letters)
  have a5: "translate_newlines (replicate 1024 97) = replicate 1024 97"
    by (rule translate_newlines_id) simp
  from C6_size_boundary [OF k g, of 1024 "render_init []" "u ''big.txt''"] a3
  obtain cs where "utf8_decode Replace (file_bytes (text_of_size 1024)) = Inr cs"
    and "output_lines (render_file (Some 1) (render_init []) (u ''big.txt'', text_of_size 1024)) =
      output_lines (render_init [])
        @ [u ''--- BEGIN FILE: '' @ u ''big.txt'' @ u '' ---'' @ [10], translate_newlines cs,
           [10] @ u ''--- END FILE: '' @ u ''big.txt'' @ u '' ---'' @ [10, 10]]"
    by auto
  with a4 a5
  have c0: "output_lines (render_file (Some 1) (render_init []) (u ''big.txt'', text_of_size 1024)) =
     [u ''--- BEGIN FILE: big.txt ---'' @ [10], replicate 1024 97,
      [10] @ u ''--- END FILE: big.txt ---'' @ [10, 10]]"
    by (simp add: render_init_def u_def)
  have over: "render_file (Some K) (render_init []) (u ''big.txt'', text_of_size n) =
       \<lparr>output_lines =
          [u ''--- BEGIN FILE: '' @ u ''big.txt'' @ u '' ---'' @ [10],
           u ''[File content skipped - size ('' @ fmt_kb n @ u '' KB) exceeds limit (''
             @ str_int K @ u '' KB)]'' @ [10],
           [10] @ u ''--- END FILE: '' @ u ''big.txt'' @ u '' ---'' @ [10, 10]],
        processed_files = 1, skipped_binary = 0, skipped_size = 1, read_errors = 0,
        io_ops = [OpGetsize]\<rparr>"
    if "0 < K" "K * 1024 + 1 \<le> int n" "n < 2 ^ 63" for K n
    using C6_size_boundary [OF that(1) g, of n "render_init []" "u ''big.txt''"] that(2,3)
    by (simp add: render_init_def)
  have c1: "render_file (Some 1) (render_init []) (u ''big.txt'', text_of_size 1025) =
       \<lparr>output_lines =
          [u ''--- BEGIN FILE: big.txt ---'' @ [10],
           u ''[File content skipped - size (1.0 KB) exceeds limit (1 KB)]'' @ [10],
           [10] @ u ''--- END FILE: big.txt ---'' @ [10, 10]],
        processed_files = 1, skipped_binary = 0, skipped_size = 1, read_errors = 0,
        io_ops = [OpGetsize]\<rparr>"
    using over [of 1 1025] by (simp add: fmt_kb_1025 str_int_1 u_def)
  have c2: "output_lines (render_file (Some 1) (render_init []) (u ''big.txt'', text_of_size 1280)) =
     [u ''--- BEGIN FILE: big.txt ---'' @ [10],
      u ''[File content skipped - size (1.2 KB) exceeds limit (1 KB)]'' @ [10],
      [10] @ u ''--- END FILE: big.txt ---'' @ [10, 10]]"
    using over [of 1 1280] by (simp add: fmt_kb_samples str_int_1 u_def)
  have c3: "output_lines (render_file (Some 1) (render_init []) (u ''big.txt'', text_of_size 1792)) =
     [u ''--- BEGIN FILE: big.txt ---'' @ [10],
      u ''[File content skipped - size (1.8 KB) exceeds limit (1 KB)]'' @ [10],
      [10] @ u ''--- END FILE: big.txt ---'' @ [10, 10]]"
    using over [of 1 1792] by (simp add: fmt_kb_samples str_int_1 u_def)
  have c4: "output_lines (render_file (Some 1) (render_init []) (u ''big.txt'', text_of_size 2048)) =
     [u ''--- BEGIN FILE: big.txt ---'' @ [10],
      u ''[File content skipped - size (2.0 KB) exceeds limit (1 KB)]'' @ [10],
      [10] @ u ''--- END FILE: big.txt ---'' @ [10, 10]]"
    using over [of 1 2048] by (simp add: fmt_kb_samples str_int_1 u_def)
  have c5: "output_lines (render_file (Some 12) (render_init []) (u ''big.txt'', text_of_size 12289)) =
     [u ''--- BEGIN FILE: big.txt ---'' @ [10],
      u ''[File content skipped - size (12.0 KB) exceeds limit (12 KB)]'' @ [10],
      [10] @ u ''--- END FILE: big.txt ---'' @ [10, 10]]"
    using over [of 12 12289] by (simp add: fmt_kb_samples str_int_12 u_def)
  have c6: "output_lines (render_file (Some 1) (render_init [])
         (u ''big.txt'', text_of_size 1152921504606847028)) =
     [u ''--- BEGIN FILE: big.txt ---'' @ [10],
      u ''[File content skipped - size (1125899906842624.0 KB) exceeds limit (1 KB)]'' @ [10],
      [10] @ u ''--- END FILE: big.txt ---'' @ [10, 10]]"
    using over [of 1 1152921504606847028] by (simp add: fmt_kb_huge str_int_1 u_def)
  from c0 c1 c2 c3 c4 c5 c6 show ?thesis by simp
qed

text \<open>
  C7. When a file-system call on a file raises (the size check, the binary probe or the
  text read), the file's block is its begin marker, the error notice of the call that
  raised with the exception's message, and its end marker; the read-error counter grows
  by exactly one and the processed counter by one, the two skip counters are unchanged;
  the loop goes on with the records after it; and a run that holds such a file still
  succeeds once the report is written, its read-error counter being the number of
  failing files.
\<close>

theorem C7_file_failure_contained:
  assumes "fails kb f"
  shows "(\<exists>flt. fault f = Some flt
            \<and> output_lines (render_file kb st (h, f)) =
                output_lines st
                @ [u ''--- BEGIN FILE: '' @ h @ u '' ---'' @ [10],
                   (case flt of
                      SizeFails m \<Rightarrow> u ''[Error checking file size: '' @ m @ u '']'' @ [10]
                    | ProbeFails m \<Rightarrow>
                        u ''[Error checking if file is binary: '' @ m @ u '']'' @ [10]
                    | ProbeFailsOther m \<Rightarrow>
                        u ''[Unexpected error checking if file is binary: '' @ m @ u '']'' @ [10]
                    | ReadFails m \<Rightarrow> u ''[Error reading file: '' @ m @ u '']'' @ [10]
                    | ReadFailsOther m \<Rightarrow>
                        u ''[Unexpected error reading file: '' @ m @ u '']'' @ [10]),
                   [10] @ u ''--- END FILE: '' @ h @ u '' ---'' @ [10, 10]])
       \<and> read_errors (render_file kb st (h, f)) = read_errors st + 1
       \<and> processed_files (render_file kb st (h, f)) = processed_files st + 1
       \<and> skipped_binary (render_file kb st (h, f)) = skipped_binary st
       \<and> skipped_size (render_file kb st (h, f)) = skipped_size st
       \<and> render_all kb st (before @ (h, f) # rest) =
           render_all kb (render_file kb (render_all kb st before) (h, f)) rest
       \<and> (path_exists environment \<and> endswith (lower zip_path) (u ''.zip'')
            \<and> extraction environment = Extracted items
            \<and> write_outcome environment = WriteOk
            \<and> (h, f) \<in> set (files_to_process (fst (aggregate fnm zip_path pats kb items)))
          \<longrightarrow> success (generate_repository_description fnm environment zip_path pats kb)
            \<and> (\<exists>rs. summary (generate_repository_description fnm environment zip_path pats kb)
                       = Some rs
                  \<and> read_errors rs =
                      length (filter (\<lambda>r. fails kb (snd r))
                        (files_to_process (fst (aggregate fnm zip_path pats kb items))))
                  \<and> 1 \<le> read_errors rs))"
proof -
  have run: "success (generate_repository_description fnm environment zip_path pats kb)
     \<and> (\<exists>rs. summary (generate_repository_description fnm environment zip_path pats kb) = Some rs
           \<and> read_errors rs =
               length (filter (\<lambda>r. fails kb (snd r))
                 (files_to_process (fst (aggregate fnm zip_path pats kb items))))
           \<and> 1 \<le> read_errors rs)"
    if ok: "path_exists environment" "endswith (lower zip_path) (u ''.zip'')"
      "extraction environment = Extracted items" "write_outcome environment = WriteOk"
      and mem: "(h, f) \<in> set (files_to_process (fst (aggregate fnm zip_path pats kb items)))"
  proof -
    let ?w = "fst (aggregate fnm zip_path pats kb items)"
    let ?rs = "snd (aggregate fnm zip_path pats kb items)"
    let ?init = "render_init (report_header zip_path pats kb @ structure_lines ?w
                   @ structure_footer ?w)"
    have i: "read_errors ?init = 0" by (simp add: render_init_def)
    have "read_errors ?rs = length (filter (\<lambda>r. fails kb (snd r)) (files_to_process ?w))"
      unfolding aggregate_render by (simp add: render_all_read_errors i)
    moreover from mem assms
    have "(h, f) \<in> set (filter (\<lambda>r. fails kb (snd r)) (files_to_process ?w))" by simp
    then have "1 \<le> length (filter (\<lambda>r. fails kb (snd r)) (files_to_process ?w))"
      by (metis One_nat_def Suc_leI length_pos_if_in_set)
    ultimately show ?thesis
      using run_ok [OF ok, of fnm pats kb] by simp
  qed
  from fails_fault [OF assms] obtain flt where flt: "fault f = Some flt" ..
  note txt1 = render_file_failure_text [OF assms flt, of st h]
  from flt txt1 render_file_failure [OF assms, of st h]
    render_all_append [of kb st before "(h, f)" rest] run
  show ?thesis by blast
qed

text \<open>
  C7 on a file that cannot be opened, on one whose size check fails (every line given by
  its code points), on one whose text read fails, and inside a run over four files.
\<close>

theorem C7_file_failure_witness:
  "fails (Some 1) locked_file
   \<and> output_lines (render_file (Some 1) (render_init []) (u ''key.pem'', locked_file)) =
       [u ''--- BEGIN FILE: key.pem ---'' @ [10],
        u ''[Error checking if file is binary: [Errno 13] Permission denied]'' @ [10],
        [10] @ u ''--- END FILE: key.pem ---'' @ [10, 10]]
   \<and> read_errors (render_file (Some 1) (render_init []) (u ''key.pem'', locked_file)) = 1
   \<and> processed_files (render_file (Some 1) (render_init []) (u ''key.pem'', locked_file)) = 1
   \<and> fails None \<lparr>file_bytes = [], fault = Some (SizeFails [69, 73, 79])\<rparr>
   \<and> output_lines (render_file None (render_init [])
         ([120], \<lparr>file_bytes = [], fault = Some (SizeFails [69, 73, 79])\<rparr>)) =
       [[45, 45, 45, 32, 66, 69, 71, 73, 78, 32, 70, 73, 76, 69, 58, 32, 120, 32, 45, 45, 45, 10],
        [91, 69, 114, 114, 111, 114, 32, 99, 104, 101, 99, 107, 105, 110, 103, 32, 102, 105, 108,
         101, 32, 115, 105, 122, 101, 58, 32, 69, 73, 79, 93, 10],
        [10, 45, 45, 45, 32, 69, 78, 68, 32, 70, 73, 76, 69, 58, 32, 120, 32, 45, 45, 45, 10, 10]]
   \<and> fails None \<lparr>file_bytes = [0x61], fault = Some (ReadFails (u ''gone''))\<rparr>
   \<and> output_lines (render_file None (render_init [])
         (u ''r.txt'', \<lparr>file_bytes = [0x61], fault = Some (ReadFails (u ''gone''))\<rparr>)) =
       [u ''--- BEGIN FILE: r.txt ---'' @ [10],
        u ''[Error reading file: gone]'' @ [10],
        [10] @ u ''--- END FILE: r.txt ---'' @ [10, 10]]
   \<and> success (generate_repository_description glob sample_env (u ''/tmp/proj.zip'') [] (Some 1))
   \<and> (\<exists>rs. summary (generate_repository_description glob sample_env (u ''/tmp/proj.zip'') []
               (Some 1)) = Some rs \<and> 1 \<le> read_errors rs)"
proof -
  let ?sz = "\<lparr>file_bytes = [], fault = Some (SizeFails [69, 73, 79])\<rparr>"
  let ?rd = "\<lparr>file_bytes = [0x61], fault = Some (ReadFails (u ''gone''))\<rparr>"
  have f: "fails (Some 1) locked_file"
    by (simp add: fails_def locked_file_def os_path_getsize_def read_chunk_def exceeds_def
        max_size_bytes_def)
  have fs: "fails None ?sz"
    by (simp add: fails_def os_path_getsize_def)
  have fr: "fails None ?rd"
    by (simp add: fails_def os_path_getsize_def read_chunk_def read_text_utf8_def exceeds_def
        max_size_bytes_def)
  have e: "path_exists sample_env \<and> endswith (lower (u ''/tmp/proj.zip'')) (u ''.zip'')
     \<and> extraction sample_env = Extracted sample_tree \<and> write_outcome sample_env = WriteOk
     \<and> (u ''key.pem'', locked_file)
         \<in> set (files_to_process (fst (aggregate glob (u ''/tmp/proj.zip'') [] (Some 1) sample_tree)))"
    by (simp add: sample_env_def sample_zip sample_files)
  note c = C7_file_failure_contained [OF f, of "render_init []" "u ''key.pem''" "[]" "[]" sample_env
      "u ''/tmp/proj.zip''" sample_tree glob "[]"]
  from c have l1: "output_lines (render_file (Some 1) (render_init []) (u ''key.pem'', locked_file)) =
       [u ''--- BEGIN FILE: key.pem ---'' @ [10],
        u ''[Error checking if file is binary: [Errno 13] Permission denied]'' @ [10],
        [10] @ u ''--- END FILE: key.pem ---'' @ [10, 10]]"
    by (auto simp: locked_file_def render_init_def u_def)
  from c e have l2: "read_errors (render_file (Some 1) (render_init []) (u ''key.pem'', locked_file)) = 1
     \<and> processed_files (render_file (Some 1) (render_init []) (u ''key.pem'', locked_file)) = 1
     \<and> success (generate_repository_description glob sample_env (u ''/tmp/proj.zip'') [] (Some 1))
     \<and> (\<exists>rs. summary (generate_repository_description glob sample_env (u ''/tmp/proj.zip'') []
               (Some 1)) = Some rs \<and> 1 \<le> read_errors rs)"
    by (simp add: render_init_def) blast
  from C7_file_failure_contained [OF fs, of "render_init []" "[120]"]
  have l3: "output_lines (render_file None (render_init []) ([120], ?sz)) =
       [[45, 45, 45, 32, 66, 69, 71, 73, 78, 32, 70, 73, 76, 69, 58, 32, 120, 32, 45, 45, 45, 10],
        [91, 69, 114, 114, 111, 114, 32, 99, 104, 101, 99, 107, 105, 110, 103, 32, 102, 105, 108,
         101, 32, 115, 105, 122, 101, 58, 32, 69, 73, 79, 93, 10],
        [10, 45, 45, 45, 32, 69, 78, 68, 32, 70, 73, 76, 69, 58, 32, 120, 32, 45, 45, 45, 10, 10]]"
    by (auto simp: render_init_def u_def)
  from C7_file_failure_contained [OF fr, of "render_init []" "u ''r.txt''"]
  have l4: "output_lines (render_file None (render_init []) (u ''r.txt'', ?rd)) =
       [u ''--- BEGIN FILE: r.txt ---'' @ [10],
        u ''[Error reading file: gone]'' @ [10],
        [10] @ u ''--- END FILE: r.txt ---'' @ [10, 10]]"
    by (auto simp: render_init_def u_def)
  from f fs fr l1 l2 l3 l4 show ?thesis by simp
qed

text \<open>
  C8. Among the top-level entries that are directories and whose name does not start
  with a dot: if there is exactly one, it is the root and its name the display name;
  otherwise the root is the extraction directory and the display name is the base name
  handed over (the archive's file name without its extension). Resolution is a total
  function: it returns a root for every layout. The walk of a run starts from the root so
  chosen, and the first structure line is the display name followed by \<open>/\<close>.
\<close>

theorem C8_root_resolution:
  "(length [d \<leftarrow> extracted_items. is_dir d \<and> \<not> startswith (node_name d) (u ''.'')] = 1 \<longrightarrow>
      (\<exists>d es. [d \<leftarrow> extracted_items. is_dir d \<and> \<not> startswith (node_name d) (u ''.'')]
                = [Dir d es]
         \<and> resolve_root extracted_items base_name_zip =
             \<lparr>repo_root = Some d, root_entries = es, repo_display_name = d\<rparr>))
   \<and> (length [d \<leftarrow> extracted_items. is_dir d \<and> \<not> startswith (node_name d) (u ''.'')] \<noteq> 1 \<longrightarrow>
        resolve_root extracted_items base_name_zip =
          \<lparr>repo_root = None, root_entries = extracted_items,
           repo_display_name = base_name_zip\<rparr>)
   \<and> fst (aggregate fnm zip_path pats kb extracted_items) =
       walk fnm pats
         (repo_display_name (resolve_root extracted_items (splitext_root (basename zip_path))))
         (root_entries (resolve_root extracted_items (splitext_root (basename zip_path))))
   \<and> (\<exists>ys. structure_lines (fst (aggregate fnm zip_path pats kb extracted_items)) =
         (repo_display_name (resolve_root extracted_items (splitext_root (basename zip_path)))
            @ u ''/'' @ NL) # ys)"
proof (intro conjI impI)
  assume one: "length [d \<leftarrow> extracted_items. is_dir d \<and> \<not> startswith (node_name d) (u ''.'')] = 1"
  then obtain n where n: "potential_dirs extracted_items = [n]"
    by (auto simp: potential_dirs_def length_Suc_conv)
  then have "n \<in> set (potential_dirs extracted_items)" by simp
  then obtain d es where "n = Dir d es" using potential_dirs_are_dirs by blast
  with n have pd: "potential_dirs extracted_items = [Dir d es]" by simp
  from resolve_single [OF pd] pd
  show "\<exists>d es. [d \<leftarrow> extracted_items. is_dir d \<and> \<not> startswith (node_name d) (u ''.'')]
                = [Dir d es]
         \<and> resolve_root extracted_items base_name_zip =
             \<lparr>repo_root = Some d, root_entries = es, repo_display_name = d\<rparr>"
    by (auto simp: potential_dirs_def)
next
  assume "length [d \<leftarrow> extracted_items. is_dir d \<and> \<not> startswith (node_name d) (u ''.'')] \<noteq> 1"
  then show "resolve_root extracted_items base_name_zip =
          \<lparr>repo_root = None, root_entries = extracted_items,
           repo_display_name = base_name_zip\<rparr>"
    by (simp add: resolve_root_def potential_dirs_def)
next
  show "fst (aggregate fnm zip_path pats kb extracted_items) =
       walk fnm pats
         (repo_display_name (resolve_root extracted_items (splitext_root (basename zip_path))))
         (root_entries (resolve_root extracted_items (splitext_root (basename zip_path))))"
    by (rule aggregate_walk)
next
  show "\<exists>ys. structure_lines (fst (aggregate fnm zip_path pats kb extracted_items)) =
         (repo_display_name (resolve_root extracted_items (splitext_root (basename zip_path)))
            @ u ''/'' @ NL) # ys"
    unfolding aggregate_walk by (rule walk_first_line)
qed

text \<open>
  C8 on a layout with a hidden directory, a file and one directory; on one with two
  directories; and on a flat one.
\<close>

theorem C8_root_resolution_witness:
  "resolve_root [Dir (u ''.git'') [], File (u ''README'') sample_text, Dir (u ''proj'') [File (u ''a.txt'') sample_text]]
       (splitext_root (basename (u ''/tmp/my.repo.zip''))) =
     \<lparr>repo_root = Some (u ''proj''), root_entries = [File (u ''a.txt'') sample_text],
      repo_display_name = u ''proj''\<rparr>
   \<and> resolve_root [Dir (u ''x'') [], Dir (u ''y'') []]
       (splitext_root (basename (u ''/tmp/my.repo.zip''))) =
     \<lparr>repo_root = None, root_entries = [Dir (u ''x'') [], Dir (u ''y'') []],
      repo_display_name = u ''my.repo''\<rparr>
   \<and> resolve_root [File (u ''a.txt'') sample_text]
       (splitext_root (basename (u ''/tmp/my.repo.zip''))) =
     \<lparr>repo_root = None, root_entries = [File (u ''a.txt'') sample_text],
      repo_display_name = u ''my.repo''\<rparr>"
proof -
  have b: "splitext_root (basename (u ''/tmp/my.repo.zip'')) = u ''my.repo''"
  proof -
    have "basename (u ''/tmp'' @ [sep] @ u ''my.repo.zip'') = u ''my.repo.zip''"
      by (rule basename_join) (simp add: u_def sep_def)
    moreover have "splitext_root (u ''my.repo'' @ [46] @ u ''zip'') = u ''my.repo''"
      by (rule splitext_stem) (simp_all add: u_def)
    ultimately show ?thesis by (simp add: u_def sep_def)
  qed
  have one: "length [d \<leftarrow> [Dir (u ''.git'') [], File (u ''README'') sample_text,
                 Dir (u ''proj'') [File (u ''a.txt'') sample_text]].
               is_dir d \<and> \<not> startswith (node_name d) (u ''.'')] = 1"
    by (simp add: startswith_def u_def)
  have two: "length [d \<leftarrow> [Dir (u ''x'') [], Dir (u ''y'') []].
               is_dir d \<and> \<not> startswith (node_name d) (u ''.'')] \<noteq> 1"
    by (simp add: startswith_def u_def)
  have none: "length [d \<leftarrow> [File (u ''a.txt'') sample_text].
               is_dir d \<and> \<not> startswith (node_name d) (u ''.'')] \<noteq> 1"
    by simp
  have sel: "[d \<leftarrow> [Dir (u ''.git'') [], File (u ''README'') sample_text,
                 Dir (u ''proj'') [File (u ''a.txt'') sample_text]].
               is_dir d \<and> \<not> startswith (node_name d) (u ''.'')]
             = [Dir (u ''proj'') [File (u ''a.txt'') sample_text]]"
    by (simp add: startswith_def u_def)
  from C8_root_resolution [of "[Dir (u ''.git'') [], File (u ''README'') sample_text,
         Dir (u ''proj'') [File (u ''a.txt'') sample_text]]" "u ''my.repo''"] one sel
  have r1: "resolve_root [Dir (u ''.git'') [], File (u ''README'') sample_text,
         Dir (u ''proj'') [File (u ''a.txt'') sample_text]] (u ''my.repo'') =
     \<lparr>repo_root = Some (u ''proj''), root_entries = [File (u ''a.txt'') sample_text],
      repo_display_name = u ''proj''\<rparr>"
    by auto
  from C8_root_resolution [of "[Dir (u ''x'') [], Dir (u ''y'') []]" "u ''my.repo''"] two
  have r2: "resolve_root [Dir (u ''x'') [], Dir (u ''y'') []] (u ''my.repo'') =
     \<lparr>repo_root = None, root_entries = [Dir (u ''x'') [], Dir (u ''y'') []],
      repo_display_name = u ''my.repo''\<rparr>"
    by blast
  from C8_root_resolution [of "[File (u ''a.txt'') sample_text]" "u ''my.repo''"] none
  have r3: "resolve_root [File (u ''a.txt'') sample_text] (u ''my.repo'') =
     \<lparr>repo_root = None, root_entries = [File (u ''a.txt'') sample_text],
      repo_display_name = u ''my.repo''\<rparr>"
    by blast
  from r1 r2 r3 show ?thesis by (simp only: b) 
qed

text \<open>
  C9. If the input path does not exist, or its lower-cased form does not end in
  \<open>.zip\<close>, the call fails and has done nothing: no temporary directory, no extraction,
  no report.
\<close>

theorem C9_invalid_input_path_rejected_first:
  assumes "\<not> path_exists environment \<or> \<not> endswith (lower zip_path) (u ''.zip'')"
  shows "generate_repository_description fnm environment zip_path pats kb =
           \<lparr>success = False, events = [], walked = None, summary = None\<rparr>"
  using assms by (auto simp: generate_repository_description_def failed_def)

text \<open>
  C9 on a missing file and on a \<open>.tar\<close> file; an upper-case \<open>.ZIP\<close> is accepted.
\<close>

theorem C9_invalid_input_path_witness:
  "generate_repository_description glob (sample_env\<lparr>path_exists := False\<rparr>)
       (u ''/tmp/proj.zip'') [] None =
     \<lparr>success = False, events = [], walked = None, summary = None\<rparr>
   \<and> \<not> endswith (lower (u ''/tmp/proj.tar'')) (u ''.zip'')
   \<and> generate_repository_description glob sample_env (u ''/tmp/proj.tar'') [] None =
     \<lparr>success = False, events = [], walked = None, summary = None\<rparr>
   \<and> success (generate_repository_description glob sample_env (u ''/tmp/PROJ.ZIP'') [] None)"
proof -
  have a: "\<not> path_exists (sample_env\<lparr>path_exists := False\<rparr>)
             \<or> \<not> endswith (lower (u ''/tmp/proj.zip'')) (u ''.zip'')" by simp
  have t: "\<not> endswith (lower (u ''/tmp/proj.tar'')) (u ''.zip'')"
    by (simp add: endswith_def lower_def u_def)
  then have b: "\<not> path_exists sample_env
             \<or> \<not> endswith (lower (u ''/tmp/proj.tar'')) (u ''.zip'')" by simp
  have z: "endswith (lower (u ''/tmp/PROJ.ZIP'')) (u ''.zip'')"
    by (simp add: endswith_def lower_def u_def)
  have e: "path_exists sample_env" "extraction sample_env = Extracted sample_tree"
    "write_outcome sample_env = WriteOk"
    by (simp_all add: sample_env_def)
  have ok: "success (generate_repository_description glob sample_env (u ''/tmp/PROJ.ZIP'') [] None)"
    by (simp add: run_ok [OF e(1) z e(2) e(3)])
  from C9_invalid_input_path_rejected_first [OF a, of glob "[]" None]
    C9_invalid_input_path_rejected_first [OF b, of glob "[]" None] t ok
  show ?thesis by simp
qed

text \<open>
  C10. In a successful run the \<open>Included Files\<close> counter of the summary equals the
  number of file records, which is the number of files counted in the structure listing
  (one line each); files skipped as binary or oversized and files with a read error are
  among them; and the content section is the concatenation of one block per record, each
  block being the line \<open>--- BEGIN FILE: <relpath> ---\<close>, one body (the size notice, the
  binary notice, an error notice or the text) and the line \<open>--- END FILE: <relpath> ---\<close>.
\<close>

theorem C10_included_files_counts_every_record:
  assumes "success (generate_repository_description fnm environment zip_path pats kb)"
  shows "\<exists>w rs. walked (generate_repository_description fnm environment zip_path pats kb) = Some w
       \<and> summary (generate_repository_description fnm environment zip_path pats kb) = Some rs
       \<and> processed_files rs = length (files_to_process w)
       \<and> total_files w = length (files_to_process w)
       \<and> length (structure_lines w) = total_dirs w + total_files w
       \<and> skipped_binary rs + skipped_size rs + read_errors rs \<le> processed_files rs
       \<and> output_lines rs =
           report_header zip_path pats kb @ structure_lines w @ structure_footer w
           @ concat (map (block kb) (files_to_process w))
       \<and> (\<forall>r \<in> set (files_to_process w).
            \<exists>x. block kb r =
                  [u ''--- BEGIN FILE: '' @ fst r @ u '' ---'' @ [10], x,
                   [10] @ u ''--- END FILE: '' @ fst r @ u '' ---'' @ [10, 10]]
              \<and> ((\<exists>k. kb = Some k
                     \<and> x = u ''[File content skipped - size (''
                             @ fmt_kb (length (file_bytes (snd r)))
                             @ u '' KB) exceeds limit ('' @ str_int k @ u '' KB)]'' @ [10])
                 \<or> x = u ''[Binary file - content skipped]'' @ [10]
                 \<or> (\<exists>m. x = u ''[Error checking file size: '' @ m @ u '']'' @ [10]
                       \<or> x = u ''[Error checking if file is binary: '' @ m @ u '']'' @ [10]
                       \<or> x = u ''[Unexpected error checking if file is binary: '' @ m @ u '']''
                             @ [10]
                       \<or> x = u ''[Error reading file: '' @ m @ u '']'' @ [10]
                       \<or> x = u ''[Unexpected error reading file: '' @ m @ u '']'' @ [10])
                 \<or> (\<exists>cs. utf8_decode Replace (file_bytes (snd r)) = Inr cs
                       \<and> x = translate_newlines cs)))"
proof -
  from run_success [OF assms] obtain items where
    run: "generate_repository_description fnm environment zip_path pats kb =
               \<lparr>success = True,
                events = [TempDirCreated, ExtractAll,
                          OutputWritten (concat (output_lines (snd (aggregate fnm zip_path pats kb items)))),
                          TempDirRemoved],
                walked = Some (fst (aggregate fnm zip_path pats kb items)),
                summary = Some (snd (aggregate fnm zip_path pats kb items))\<rparr>"
    by blast
  let ?w = "fst (aggregate fnm zip_path pats kb items)"
  let ?rs = "snd (aggregate fnm zip_path pats kb items)"
  let ?init = "render_init (report_header zip_path pats kb @ structure_lines ?w @ structure_footer ?w)"
  have rs: "?rs = render_all kb ?init (files_to_process ?w)" by (rule aggregate_render)
  have i: "processed_files ?init = 0" "skipped_binary ?init = 0" "skipped_size ?init = 0"
    "read_errors ?init = 0"
    "output_lines ?init = report_header zip_path pats kb @ structure_lines ?w @ structure_footer ?w"
    by (simp_all add: render_init_def)
  have p: "processed_files ?rs = length (files_to_process ?w)"
    unfolding rs by (simp add: render_all_processed i)
  have c: "total_files ?w = length (files_to_process ?w)
       \<and> length (structure_lines ?w) = total_dirs ?w + total_files ?w"
    unfolding aggregate_walk by (rule walk_counts)
  have "skipped_binary ?rs + skipped_size ?rs + read_errors ?rs \<le> length (files_to_process ?w)"
    unfolding rs using render_all_skip_counters [of kb ?init "files_to_process ?w"]
    by (simp add: i)
  with p have k: "skipped_binary ?rs + skipped_size ?rs + read_errors ?rs \<le> processed_files ?rs"
    by simp
  have l: "output_lines ?rs = report_header zip_path pats kb @ structure_lines ?w
             @ structure_footer ?w @ concat (map (block kb) (files_to_process ?w))"
    unfolding rs by (simp add: render_all_lines i)
  have b: "\<forall>r \<in> set (files_to_process ?w).
            \<exists>x. block kb r =
                  [u ''--- BEGIN FILE: '' @ fst r @ u '' ---'' @ [10], x,
                   [10] @ u ''--- END FILE: '' @ fst r @ u '' ---'' @ [10, 10]]
              \<and> ((\<exists>k. kb = Some k
                     \<and> x = u ''[File content skipped - size (''
                             @ fmt_kb (length (file_bytes (snd r)))
                             @ u '' KB) exceeds limit ('' @ str_int k @ u '' KB)]'' @ [10])
                 \<or> x = u ''[Binary file - content skipped]'' @ [10]
                 \<or> (\<exists>m. x = u ''[Error checking file size: '' @ m @ u '']'' @ [10]
                       \<or> x = u ''[Error checking if file is binary: '' @ m @ u '']'' @ [10]
                       \<or> x = u ''[Unexpected error checking if file is binary: '' @ m @ u '']''
                             @ [10]
                       \<or> x = u ''[Error reading file: '' @ m @ u '']'' @ [10]
                       \<or> x = u ''[Unexpected error reading file: '' @ m @ u '']'' @ [10])
                 \<or> (\<exists>cs. utf8_decode Replace (file_bytes (snd r)) = Inr cs
                       \<and> x = translate_newlines cs))"
  proof
    fix r assume "r \<in> set (files_to_process ?w)"
    from block_text [of kb "fst r" "snd r"]
    show "\<exists>x. block kb r =
                  [u ''--- BEGIN FILE: '' @ fst r @ u '' ---'' @ [10], x,
                   [10] @ u ''--- END FILE: '' @ fst r @ u '' ---'' @ [10, 10]]
              \<and> ((\<exists>k. kb = Some k
                     \<and> x = u ''[File content skipped - size (''
                             @ fmt_kb (length (file_bytes (snd r)))
                             @ u '' KB) exceeds limit ('' @ str_int k @ u '' KB)]'' @ [10])
                 \<or> x = u ''[Binary file - content skipped]'' @ [10]
                 \<or> (\<exists>m. x = u ''[Error checking file size: '' @ m @ u '']'' @ [10]
                       \<or> x = u ''[Error checking if file is binary: '' @ m @ u '']'' @ [10]
                       \<or> x = u ''[Unexpected error checking if file is binary: '' @ m @ u '']''
                             @ [10]
                       \<or> x = u ''[Error reading file: '' @ m @ u '']'' @ [10]
                       \<or> x = u ''[Unexpected error reading file: '' @ m @ u '']'' @ [10])
                 \<or> (\<exists>cs. utf8_decode Replace (file_bytes (snd r)) = Inr cs
                       \<and> x = translate_newlines cs))"
      by simp
  qed
  from run p c k l b show ?thesis by simp
qed

text \<open>
  C10 on a run over a text file, an oversized file, a binary file and an unreadable
  file, with the twelve lines of its content section.
\<close>

theorem C10_included_files_witness:
  "success (generate_repository_description glob sample_env (u ''/tmp/proj.zip'') [] (Some 1))
   \<and> (\<exists>w rs. walked (generate_repository_description glob sample_env (u ''/tmp/proj.zip'') []
                 (Some 1)) = Some w
          \<and> summary (generate_repository_description glob sample_env (u ''/tmp/proj.zip'') []
                 (Some 1)) = Some rs
          \<and> processed_files rs = 4 \<and> total_files w = 4
          \<and> skipped_binary rs = 1 \<and> skipped_size rs = 1 \<and> read_errors rs = 1
          \<and> output_lines rs =
              report_header (u ''/tmp/proj.zip'') [] (Some 1) @ structure_lines w
              @ structure_footer w
              @ [u ''--- BEGIN FILE: a.txt ---'' @ [10],
                 [104, 101, 108, 108, 111],
                 [10] @ u ''--- END FILE: a.txt ---'' @ [10, 10],
                 u ''--- BEGIN FILE: big.txt ---'' @ [10],
                 u ''[File content skipped - size (2.0 KB) exceeds limit (1 KB)]'' @ [10],
                 [10] @ u ''--- END FILE: big.txt ---'' @ [10, 10],
                 u ''--- BEGIN FILE: bin.dat ---'' @ [10],
                 u ''[Binary file - content skipped]'' @ [10],
                 [10] @ u ''--- END FILE: bin.dat ---'' @ [10, 10],
                 u ''--- BEGIN FILE: key.pem ---'' @ [10],
                 u ''[Error checking if file is binary: [Errno 13] Permission denied]'' @ [10],
                 [10] @ u ''--- END FILE: key.pem ---'' @ [10, 10]])"
proof -
  let ?run = "generate_repository_description glob sample_env (u ''/tmp/proj.zip'') [] (Some 1)"
  let ?w = "fst (aggregate glob (u ''/tmp/proj.zip'') [] (Some 1) sample_tree)"
  let ?rs = "snd (aggregate glob (u ''/tmp/proj.zip'') [] (Some 1) sample_tree)"
  have ok: "path_exists sample_env" "endswith (lower (u ''/tmp/proj.zip'')) (u ''.zip'')"
    "extraction sample_env = Extracted sample_tree" "write_outcome sample_env = WriteOk"
    by (simp_all add: sample_env_def sample_zip)
  have s: "success ?run" by (simp add: run_ok [OF ok])
  have w: "walked ?run = Some ?w" by (simp add: run_ok [OF ok])
  have r: "summary ?run = Some ?rs" by (simp add: run_ok [OF ok])
  have rs: "?rs = render_all (Some 1)
       (render_init (report_header (u ''/tmp/proj.zip'') [] (Some 1) @ structure_lines ?w
          @ structure_footer ?w))
       [(u ''a.txt'', sample_text), (u ''big.txt'', big_file), (u ''bin.dat'', sample_binary),
        (u ''key.pem'', locked_file)]"
    using aggregate_render [of glob "u ''/tmp/proj.zip''" "[]" "Some 1" sample_tree]
    by (simp only: sample_files)
  have counters: "skipped_binary ?rs = 1 \<and> skipped_size ?rs = 1 \<and> read_errors ?rs = 1
     \<and> output_lines ?rs =
         report_header (u ''/tmp/proj.zip'') [] (Some 1) @ structure_lines ?w
         @ structure_footer ?w
         @ [u ''--- BEGIN FILE: a.txt ---'' @ [10],
            [104, 101, 108, 108, 111],
            [10] @ u ''--- END FILE: a.txt ---'' @ [10, 10],
            u ''--- BEGIN FILE: big.txt ---'' @ [10],
            u ''[File content skipped - size (2.0 KB) exceeds limit (1 KB)]'' @ [10],
            [10] @ u ''--- END FILE: big.txt ---'' @ [10, 10],
            u ''--- BEGIN FILE: bin.dat ---'' @ [10],
            u ''[Binary file - content skipped]'' @ [10],
            [10] @ u ''--- END FILE: bin.dat ---'' @ [10, 10],
            u ''--- BEGIN FILE: key.pem ---'' @ [10],
            u ''[Error checking if file is binary: [Errno 13] Permission denied]'' @ [10],
            [10] @ u ''--- END FILE: key.pem ---'' @ [10, 10]]"
    by (subst (1 2 3 4) rs) (simp add: sample_render render_init_def)
  from C10_included_files_counts_every_record [OF s] w r
  have "processed_files ?rs = length (files_to_process ?w)
      \<and> total_files ?w = length (files_to_process ?w)"
    by auto
  then have "processed_files ?rs = 4 \<and> total_files ?w = 4"
    by (simp add: sample_files)
  with s w r counters show ?thesis by simp
qed

end
